theory Spec2Isabelle
  imports Complex_Main "HOL-Library.Sublist" "HOL-Library.Char_ord" "HOL-Library.List_Lexorder"
    "HOL-Library.AList" "HOL-Library.Multiset"
begin

section \<open>Python values and errors\<close>

text \<open>
  The module \<^verbatim>\<open>enzyme_construction.py\<close> builds an enzyme kinetic module from text files.
  Every exception the Python code can raise is a value of \<open>py_error\<close>; a function that can
  raise returns \<open>py_error + 'a\<close>, with \<open>Inl\<close> for the exception. \<open>IndexError\<close> and
  \<open>KeyError\<close> carry the message, respectively the missing key.
\<close>

datatype py_error =
    IndexError string
  | KeyError string
  | TypeError
  | ValueError
  | AttributeError
  | ReUnmodelled

text \<open>
  A Python float: a finite value, read as the real number it denotes, one of the two
  infinities, or not-a-number. \<open>float_abs\<close> is \<^verbatim>\<open>abs()\<close>, \<open>float_le\<close> is \<^verbatim>\<open><=\<close> and
  \<open>float_lt\<close> is \<^verbatim>\<open><\<close>; every comparison with not-a-number is false.
\<close>

datatype py_number = Finite real | PosInf | NegInf | NaN

fun float_abs :: "py_number \<Rightarrow> py_number" where
  "float_abs (Finite x) = Finite \<bar>x\<bar>"
| "float_abs PosInf = PosInf"
| "float_abs NegInf = PosInf"
| "float_abs NaN = NaN"

fun float_le :: "py_number \<Rightarrow> py_number \<Rightarrow> bool" where
  "float_le NaN b = False"
| "float_le a NaN = False"
| "float_le NegInf b = True"
| "float_le a PosInf = True"
| "float_le (Finite x) (Finite y) = (x \<le> y)"
| "float_le a b = False"

definition float_lt :: "py_number \<Rightarrow> py_number \<Rightarrow> bool" where
  "float_lt a b = (float_le a b \<and> \<not> float_le b a)"

text \<open>
  A value as the symbolic library hands it to \<^verbatim>\<open>float()\<close>: \<open>Num x\<close> converts to the
  float \<open>x\<close>; \<open>NotNum\<close> (a non-real or still symbolic value) makes \<^verbatim>\<open>float()\<close> raise
  \<^verbatim>\<open>TypeError\<close>.
\<close>

datatype sym_number = Num py_number | NotNum

definition py_float :: "sym_number \<Rightarrow> py_error + py_number" where
  "py_float v = (case v of Num x \<Rightarrow> Inr x | NotNum \<Rightarrow> Inl TypeError)"

section \<open>Strings\<close>

definition digit_char :: "nat \<Rightarrow> char" where
  "digit_char d = ''0123456789'' ! d"

text \<open>\<^verbatim>\<open>str(n)\<close> for a natural number: its decimal digits.\<close>

fun str_nat :: "nat \<Rightarrow> string" where
  "str_nat n = (if n < 10 then [digit_char n] else str_nat (n div 10) @ [digit_char (n mod 10)])"

declare str_nat.simps [simp del]

text \<open>
  Whitespace as \<^verbatim>\<open>str.strip\<close> and the regex class \<^verbatim>\<open>\s\<close> see it, on ASCII text:
  tab, line feed, vertical tab, form feed, carriage return, the four separators
  \<open>0x1C\<close> to \<open>0x1F\<close>, and the space.
\<close>

definition is_space :: "char \<Rightarrow> bool" where
  "is_space c = (of_char c \<in> {9, 10, 11, 12, 13, 28, 29, 30, 31, 32 :: nat})"

definition is_digit :: "char \<Rightarrow> bool" where
  "is_digit c = (48 \<le> (of_char c :: nat) \<and> (of_char c :: nat) \<le> 57)"

definition is_alpha :: "char \<Rightarrow> bool" where
  "is_alpha c = ((65 \<le> (of_char c :: nat) \<and> (of_char c :: nat) \<le> 90)
     \<or> (97 \<le> (of_char c :: nat) \<and> (of_char c :: nat) \<le> 122))"

definition lstrip :: "string \<Rightarrow> string" where
  "lstrip s = dropWhile is_space s"

definition rstrip :: "string \<Rightarrow> string" where
  "rstrip s = rev (dropWhile is_space (rev s))"

definition strip :: "string \<Rightarrow> string" where
  "strip s = rstrip (lstrip s)"

text \<open>\<^verbatim>\<open>s.lstrip(chars)\<close> and \<^verbatim>\<open>s.rstrip(chars)\<close> for a one-character argument.\<close>

definition lstrip_char :: "char \<Rightarrow> string \<Rightarrow> string" where
  "lstrip_char c s = dropWhile (\<lambda>x. x = c) s"

definition rstrip_char :: "char \<Rightarrow> string \<Rightarrow> string" where
  "rstrip_char c s = rev (dropWhile (\<lambda>x. x = c) (rev s))"

text \<open>
  \<^verbatim>\<open>s.replace(old, new)\<close>: every occurrence of \<open>old\<close>, leftmost first and without
  overlap; an empty \<open>old\<close> matches before every character and at the end.
\<close>

function replace_all :: "string \<Rightarrow> string \<Rightarrow> string \<Rightarrow> string" where
  "replace_all old new s =
     (if old = [] then new @ concat (map (\<lambda>c. c # new) s)
      else if s = [] then []
      else if prefix old s then new @ replace_all old new (drop (length old) s)
      else hd s # replace_all old new (tl s))"
  by pat_completeness auto
termination
  by (relation "measure (\<lambda>(old, new, s). length s)") auto

declare replace_all.simps [simp del]

text \<open>The same with a count of one: only the leftmost occurrence.\<close>

fun replace_first :: "string \<Rightarrow> string \<Rightarrow> string \<Rightarrow> string" where
  "replace_first old new [] = (if old = [] then new else [])"
| "replace_first old new (c # cs) =
     (if prefix old (c # cs) then new @ drop (length old) (c # cs)
      else c # replace_first old new cs)"

text \<open>\<^verbatim>\<open>old in s\<close> on strings.\<close>

fun str_contains :: "string \<Rightarrow> string \<Rightarrow> bool" where
  "str_contains old [] = (old = [])"
| "str_contains old (c # cs) = (prefix old (c # cs) \<or> str_contains old cs)"

text \<open>
  \<^verbatim>\<open>s.split(sep)\<close> for a non-empty separator: the pieces between the occurrences of
  \<open>sep\<close>, leftmost first; a string without the separator is its own single piece.
\<close>

function str_split :: "string \<Rightarrow> string \<Rightarrow> string list" where
  "str_split sep s =
     (if s = [] then [[]]
      else if sep \<noteq> [] \<and> prefix sep s then [] # str_split sep (drop (length sep) s)
      else (case str_split sep (tl s) of
              [] \<Rightarrow> [[hd s]]
            | w # ws \<Rightarrow> (hd s # w) # ws))"
  by pat_completeness auto
termination
  by (relation "measure (\<lambda>(sep, s). length s)") auto

declare str_split.simps [simp del]

section \<open>The precompiled patterns\<close>

text \<open>
  \<^verbatim>\<open>compartment_finder_re = re.compile(r"\s*\[([A-Za-z])\]")\<close>: optional whitespace, then
  one ASCII letter in square brackets. \<open>bracket_at s\<close> says that \<open>s\<close> starts with such a
  bracketed letter.
\<close>

definition bracket_at :: "string \<Rightarrow> bool" where
  "bracket_at s =
     (case s of
        a # b # c # _ \<Rightarrow> a = CHR ''['' \<and> is_alpha b \<and> c = CHR '']''
      | _ \<Rightarrow> False)"

text \<open>
  \<^verbatim>\<open>compartment_finder_re.findall(s)\<close>: the letters of the matches, left to right. The
  whitespace before a bracket belongs to the match and changes no letter found.
\<close>

fun compartment_finder_findall :: "string \<Rightarrow> char list" where
  "compartment_finder_findall (a # b # c # s) =
     (if a = CHR ''['' \<and> is_alpha b \<and> c = CHR '']''
      then b # compartment_finder_findall s
      else compartment_finder_findall (b # c # s))"
| "compartment_finder_findall s = []"

text \<open>
  \<^verbatim>\<open>compartment_finder_re.sub(repl, s)\<close> for a replacement without backslashes: each
  bracketed letter goes, together with the whitespace right before it.
\<close>

function compartment_finder_sub :: "string \<Rightarrow> string \<Rightarrow> string" where
  "compartment_finder_sub repl s =
     (if s = [] then []
      else if bracket_at (dropWhile is_space s)
        then repl @ compartment_finder_sub repl (drop 3 (dropWhile is_space s))
      else hd s # compartment_finder_sub repl (tl s))"
  by pat_completeness auto
termination
proof (relation "measure (\<lambda>(repl, s). length s)", goal_cases)
  case 1
  show ?case by simp
next
  case (2 repl s)
  have "length (dropWhile is_space s) \<le> length s"
    by (rule length_dropWhile_le)
  moreover from 2 have "3 \<le> length (dropWhile is_space s)"
    by (auto simp: bracket_at_def split: list.splits)
  ultimately show ?case
    by simp
next
  case (3 repl s)
  then show ?case by simp
qed

declare compartment_finder_sub.simps [simp del]

text \<open>
  \<^verbatim>\<open>bound_metabolites_re = re.compile(r"&|@|#")\<close>: one of three delimiter characters;
  \<^verbatim>\<open>search\<close>, \<^verbatim>\<open>split\<close> and \<^verbatim>\<open>sub("_", s)\<close> of that pattern.
\<close>

definition is_bound_delim :: "char \<Rightarrow> bool" where
  "is_bound_delim c = (c = CHR ''&'' \<or> c = CHR ''@'' \<or> c = CHR ''#'')"

definition bound_metabolites_search :: "string \<Rightarrow> bool" where
  "bound_metabolites_search s = list_ex is_bound_delim s"

fun bound_metabolites_split :: "string \<Rightarrow> string list" where
  "bound_metabolites_split [] = [[]]"
| "bound_metabolites_split (c # cs) =
     (if is_bound_delim c then [] # bound_metabolites_split cs
      else (case bound_metabolites_split cs of
              [] \<Rightarrow> [[c]]
            | w # ws \<Rightarrow> (c # w) # ws))"

definition bound_metabolites_sub :: "string \<Rightarrow> string" where
  "bound_metabolites_sub s = map (\<lambda>c. if is_bound_delim c then CHR ''_'' else c) s"

text \<open>\<^verbatim>\<open>prefix_number_id\<close>: \<^verbatim>\<open>re.match(r"^\d", id_str)\<close> looks at the first character.\<close>

definition prefix_number_id :: "string \<Rightarrow> string" where
  "prefix_number_id id_str =
     (case id_str of
        [] \<Rightarrow> id_str
      | c # _ \<Rightarrow> if is_digit c then CHR ''_'' # id_str else id_str)"

section \<open>The species loader\<close>

text \<open>
  The variable \<^verbatim>\<open>compartment\<close> of \<^verbatim>\<open>metabolites_from_txt\<close> holds the list that
  \<^verbatim>\<open>findall\<close> returned, until line 160 replaces a one-element list by its element, a
  string of one letter.
\<close>

datatype compartment = CompList "char list" | CompStr char

text \<open>
  The objects built by the constructors of the modelling library: the identifier, the
  compartment argument and, for an enzyme form, the bound metabolites with their counts
  in insertion order.
\<close>

datatype specie =
    EnzymeModuleForm string compartment "(string \<times> nat) list"
  | MassMetabolite string compartment

text \<open>
  Lines 150 to 156: when the letters found hold a \<open>D\<close> or an \<open>L\<close>, the first \<open>D\<close>
  (the first \<open>L\<close> when there is no \<open>D\<close>) is popped from the list and
  \<^verbatim>\<open>re.sub(r"\[" + isomer + r"\]", "_" + isomer, new_id)\<close> rewrites every occurrence of
  that bracketed letter; the pattern is the three literal characters.
\<close>

definition correct_isomer :: "string \<Rightarrow> string \<times> char list" where
  "correct_isomer orig_id =
     (let compartment = compartment_finder_findall orig_id
      in if CHR ''D'' \<in> set compartment \<or> CHR ''L'' \<in> set compartment
         then (let isomer = (if CHR ''D'' \<in> set compartment then CHR ''D'' else CHR ''L'')
               in (replace_all [CHR ''['', isomer, CHR '']''] [CHR ''_'', isomer] orig_id,
                   remove1 isomer compartment))
         else (orig_id, compartment))"

text \<open>Lines 159 to 162: exactly one letter left is the compartment of the specie.\<close>

definition correct_compartment :: "string \<times> char list \<Rightarrow> string \<times> compartment" where
  "correct_compartment p =
     (case snd p of
        [c] \<Rightarrow> (compartment_finder_sub [CHR ''_'', c] (fst p), CompStr c)
      | _ \<Rightarrow> (fst p, CompList (snd p)))"

text \<open>
  Lines 175 to 177: \<^verbatim>\<open>bound_metabolites[k]\<close> starts at 0 when the key is new, then
  counts one more.
\<close>

definition count_bound :: "string \<Rightarrow> (string \<times> nat) list \<Rightarrow> (string \<times> nat) list" where
  "count_bound k bm =
     (let bm0 = (if k \<in> fst ` set bm then bm else AList.update k 0 bm)
      in AList.update k (the (map_of bm0 k) + 1) bm0)"

text \<open>
  Lines 171 to 177, the loop over the pieces after the first delimiter.
  \<^verbatim>\<open>compartment is not None\<close> always holds, and \<^verbatim>\<open>"_" + compartment\<close> raises
  \<^verbatim>\<open>TypeError\<close> when the compartment is still a list.
\<close>

fun bound_species :: "compartment \<Rightarrow> string list \<Rightarrow> (string \<times> nat) list
    \<Rightarrow> py_error + (string \<times> nat) list" where
  "bound_species compartment [] bm = Inr bm"
| "bound_species compartment (b # bs) bm =
     (case compartment of
        CompList _ \<Rightarrow> Inl TypeError
      | CompStr c \<Rightarrow>
          bound_species compartment bs (count_bound (prefix_number_id (b @ [CHR ''_'', c])) bm))"

text \<open>
  The normalised identifier and compartment of a raw identifier, lines 148 to 165.
\<close>

definition normalize_id :: "string \<Rightarrow> string \<times> compartment" where
  "normalize_id orig_id =
     (let p = correct_compartment (correct_isomer orig_id)
      in (prefix_number_id (fst p), snd p))"

text \<open>
  The body of the loop of \<^verbatim>\<open>metabolites_from_txt\<close> for one identifier: the entry of
  the identifier map and the object created.
\<close>

definition specie_from_id :: "string \<Rightarrow> string \<Rightarrow> py_error + (string \<times> specie)" where
  "specie_from_id enzyme_id orig_id =
     (let new_id = fst (normalize_id orig_id); compartment = snd (normalize_id orig_id)
      in if prefix (''E_'' @ enzyme_id) new_id
         then (if bound_metabolites_search new_id
               then (case bound_species compartment (tl (bound_metabolites_split new_id)) [] of
                       Inl err \<Rightarrow> Inl err
                     | Inr bm \<Rightarrow>
                         Inr (bound_metabolites_sub new_id,
                              EnzymeModuleForm (bound_metabolites_sub new_id) compartment bm))
               else Inr (new_id, EnzymeModuleForm new_id compartment []))
         else Inr (new_id, MassMetabolite new_id compartment))"

text \<open>
  The loop over the identifiers: the identifier map for species (a Python dictionary, in
  insertion order) and the list of objects, in file order.
\<close>

fun species_loop :: "string \<Rightarrow> string list \<Rightarrow> (string \<times> string) list \<times> specie list
    \<Rightarrow> py_error + (string \<times> string) list \<times> specie list" where
  "species_loop enzyme_id [] st = Inr st"
| "species_loop enzyme_id (orig_id # ids) st =
     (case specie_from_id enzyme_id orig_id of
        Inl err \<Rightarrow> Inl err
      | Inr (new_id, sp) \<Rightarrow>
          species_loop enzyme_id ids (AList.update orig_id new_id (fst st), snd st @ [sp]))"

definition id_of_specie :: "specie \<Rightarrow> string" where
  "id_of_specie sp = (case sp of EnzymeModuleForm i c bm \<Rightarrow> i | MassMetabolite i c \<Rightarrow> i)"


text \<open>
  Line 194: \<^verbatim>\<open>enzyme_module.add_metabolites(species)\<close> belongs to the modelling library.
  On the new module it refuses, with \<^verbatim>\<open>ValueError\<close>, a list that holds an empty
  identifier or the same identifier twice; otherwise the species become the metabolites of
  the module.
\<close>

definition add_metabolites :: "specie list \<Rightarrow> py_error + specie list" where
  "add_metabolites species =
     (if [] \<in> set (map id_of_specie species) \<or> \<not> distinct (map id_of_specie species)
      then Inl ValueError
      else Inr species)"

text \<open>
  \<^verbatim>\<open>metabolites_from_txt\<close> on the lines of the species file as \<^verbatim>\<open>readlines\<close> returns
  them: the identifier map for species and the metabolites of the module.
\<close>

definition metabolites_from_txt :: "string \<Rightarrow> string list
    \<Rightarrow> py_error + (string \<times> string) list \<times> specie list" where
  "metabolites_from_txt enzyme_id file_lines =
     (case species_loop enzyme_id (map strip file_lines) ([], []) of
        Inl err \<Rightarrow> Inl err
      | Inr st \<Rightarrow>
          (case add_metabolites (snd st) of
             Inl err \<Rightarrow> Inl err
           | Inr metabolites \<Rightarrow> Inr (fst st, metabolites)))"

text \<open>
  Three predicates on a raw identifier, used to state what the loader does: the
  identifier becomes an enzyme form with bound ligands (the tests of lines 167 and 169);
  exactly one bracketed letter is left after the isomer has been popped (the test of line
  159); and both: a bound form without a single compartment letter. \<open>final_id\<close> is the
  identifier that the object of a raw identifier receives.
\<close>

definition is_bound_form :: "string \<Rightarrow> string \<Rightarrow> bool" where
  "is_bound_form enzyme_id orig_id =
     (prefix (''E_'' @ enzyme_id) (fst (normalize_id orig_id))
      \<and> bound_metabolites_search (fst (normalize_id orig_id)))"

definition one_compartment :: "string \<Rightarrow> bool" where
  "one_compartment orig_id = (length (snd (correct_isomer orig_id)) = 1)"

definition raises_type_error :: "string \<Rightarrow> string \<Rightarrow> bool" where
  "raises_type_error enzyme_id orig_id =
     (is_bound_form enzyme_id orig_id \<and> \<not> one_compartment orig_id)"

definition final_id :: "string \<Rightarrow> string \<Rightarrow> string" where
  "final_id enzyme_id orig_id =
     (if is_bound_form enzyme_id orig_id
      then bound_metabolites_sub (fst (normalize_id orig_id))
      else fst (normalize_id orig_id))"

section \<open>Regular-expression substitution with a pattern taken from the data\<close>

text \<open>
  \<^verbatim>\<open>re.sub(pattern, repl, string, count)\<close> belongs to Python's library. The loaders call
  it with patterns built from the identifiers of the text files, so the functions below
  take the substitution as an argument of type \<open>re_sub\<close>. The replacement is either a
  template string, in which the library interprets backslashes, or a callable that returns
  a fixed string, which the library inserts as it is. A count of 0 replaces every match.
\<close>

datatype repl = Template string | Callable string

type_synonym re_sub = "string \<Rightarrow> repl \<Rightarrow> string \<Rightarrow> nat \<Rightarrow> py_error + string"

definition backslash :: char where
  "backslash = CHR 0x5C"

definition is_meta :: "char \<Rightarrow> bool" where
  "is_meta c = (c \<in> set ''.^$*+?{}[]|()'' \<or> c = backslash)"

definition is_alnum :: "char \<Rightarrow> bool" where
  "is_alnum c = (is_alpha c \<or> is_digit c)"

text \<open>
  The text that a pattern matches when the pattern is a literal: ordinary characters stand
  for themselves and a backslash before a character that is neither a letter nor a digit
  makes that character literal. Any other pattern (an unescaped metacharacter, a backslash
  before a letter or digit, a backslash at the end) has no literal text.
\<close>

fun literal_pattern :: "string \<Rightarrow> string option" where
  "literal_pattern [] = Some []"
| "literal_pattern [c] = (if is_meta c then None else Some [c])"
| "literal_pattern (c # d # cs) =
     (if c = backslash
      then (if is_alnum d then None else map_option ((#) d) (literal_pattern cs))
      else if is_meta c then None
      else map_option ((#) c) (literal_pattern (d # cs)))"

definition repl_text :: "repl \<Rightarrow> string option" where
  "repl_text r =
     (case r of
        Callable t \<Rightarrow> Some t
      | Template t \<Rightarrow> if backslash \<in> set t then None else Some t)"

text \<open>
  The library's substitution on the patterns that are literals, with the two counts the
  loaders use. Outside that fragment \<open>re_sub_literal\<close> answers \<open>ReUnmodelled\<close>; no
  statement below draws a conclusion from that answer.
\<close>

definition re_sub_literal :: re_sub where
  "re_sub_literal pattern r s n =
     (case (literal_pattern pattern, repl_text r) of
        (Some old, Some new) \<Rightarrow>
          (if n = 0 then Inr (replace_all old new s)
           else if n = 1 then Inr (replace_first old new s)
           else Inl ReUnmodelled)
      | _ \<Rightarrow> Inl ReUnmodelled)"

text \<open>\<^verbatim>\<open>s.replace("[", r"\[").replace("]", r"\]")\<close>.\<close>

definition escape_brackets :: "string \<Rightarrow> string" where
  "escape_brackets s =
     replace_all '']'' [backslash, CHR '']''] (replace_all ''['' [backslash, CHR ''['']  s)"


section \<open>The reaction loader\<close>

text \<open>
  Lines 219 and 220: the formula is split at \<^verbatim>\<open>" <=> "\<close> and every side at
  \<^verbatim>\<open>" + "\<close>; \<^verbatim>\<open>iconcat\<close> takes exactly two lists and raises \<^verbatim>\<open>TypeError\<close> for any
  other number of sides.
\<close>

definition species_tokens :: "string \<Rightarrow> py_error + string list" where
  "species_tokens reaction_str =
     (case map (str_split '' + '') (str_split '' <=> '' (strip reaction_str)) of
        [a, b] \<Rightarrow> Inr (a @ b)
      | _ \<Rightarrow> Inl TypeError)"

text \<open>
  Lines 221 to 225: for every token, in order, the first match of the token in the
  formula is replaced by the token's entry in the identifier map. The lookup is an
  argument of the call, so a missing key raises \<^verbatim>\<open>KeyError\<close> before the substitution
  runs.
\<close>

fun fix_species :: "re_sub \<Rightarrow> (string \<times> string) list \<Rightarrow> string list \<Rightarrow> string
    \<Rightarrow> py_error + string" where
  "fix_species sub species_map [] reaction_str = Inr reaction_str"
| "fix_species sub species_map (specie_id # rest) reaction_str =
     (case map_of species_map specie_id of
        None \<Rightarrow> Inl (KeyError specie_id)
      | Some new_id \<Rightarrow>
          (case sub (escape_brackets specie_id) (Template new_id) reaction_str 1 of
             Inl err \<Rightarrow> Inl err
           | Inr fixed \<Rightarrow> fix_species sub species_map rest fixed))"

text \<open>\<^verbatim>\<open>re.sub(r"\$", "_", orig_id)\<close>: every dollar sign becomes an underscore.\<close>

definition dollar_sub :: "string \<Rightarrow> string" where
  "dollar_sub s = map (\<lambda>c. if c = CHR ''$'' then CHR ''_'' else c) s"

text \<open>
  A reaction as the loader leaves it: the identifier given to the constructor and the
  formula handed to \<^verbatim>\<open>build_reaction_from_string\<close>.
\<close>

record reaction =
  rxn_id :: string
  formula :: string

text \<open>
  The body of the loop of \<^verbatim>\<open>reactions_from_txt\<close> for one line: the raw identifier and
  the reaction. Unpacking the result of \<^verbatim>\<open>split(": ")\<close> into two names raises
  \<^verbatim>\<open>ValueError\<close> unless there are exactly two pieces.
\<close>

definition reaction_from_line :: "re_sub \<Rightarrow> (string \<times> string) list \<Rightarrow> string
    \<Rightarrow> py_error + (string \<times> reaction)" where
  "reaction_from_line sub species_map line =
     (case str_split '': '' line of
        [orig_id, reaction_str] \<Rightarrow>
          (case species_tokens reaction_str of
             Inl err \<Rightarrow> Inl err
           | Inr species_list \<Rightarrow>
               (case fix_species sub species_map species_list reaction_str of
                  Inl err \<Rightarrow> Inl err
                | Inr fixed \<Rightarrow>
                    Inr (orig_id,
                         \<lparr>rxn_id = prefix_number_id (dollar_sub orig_id), formula = fixed\<rparr>)))
      | _ \<Rightarrow> Inl ValueError)"

fun reactions_loop :: "re_sub \<Rightarrow> (string \<times> string) list \<Rightarrow> string list
    \<Rightarrow> (string \<times> string) list \<times> reaction list
    \<Rightarrow> py_error + (string \<times> string) list \<times> reaction list" where
  "reactions_loop sub species_map [] st = Inr st"
| "reactions_loop sub species_map (line # rest) st =
     (case reaction_from_line sub species_map line of
        Inl err \<Rightarrow> Inl err
      | Inr (orig_id, rxn) \<Rightarrow>
          reactions_loop sub species_map rest
            (AList.update orig_id (rxn_id rxn) (fst st), snd st @ [rxn]))"

text \<open>
  \<^verbatim>\<open>reactions_from_txt\<close> on the lines of the reaction file: the identifier map for
  reactions and the reactions, in file order.
\<close>

definition reactions_from_txt :: "re_sub \<Rightarrow> (string \<times> string) list \<Rightarrow> string list
    \<Rightarrow> py_error + (string \<times> string) list \<times> reaction list" where
  "reactions_from_txt sub species_map file_lines =
     reactions_loop sub species_map (map strip file_lines) ([], [])"

text \<open>
  The first two stages of \<^verbatim>\<open>make_enzyme_module_from_dir\<close>, lines 92 and 95: the species
  loader, then the reaction loader with the species map the first one built.
\<close>

definition species_then_reactions :: "re_sub \<Rightarrow> string \<Rightarrow> string list \<Rightarrow> string list
    \<Rightarrow> py_error + (string \<times> string) list \<times> reaction list" where
  "species_then_reactions sub enzyme_id species_file reactions_file =
     (case metabolites_from_txt enzyme_id species_file of
        Inl err \<Rightarrow> Inl err
      | Inr (species_map, species) \<Rightarrow> reactions_from_txt sub species_map reactions_file)"

text \<open>
  The species tokens of a line of the reaction file, for stating what the loader does
  with them; a line that is not of the form \<^verbatim>\<open>id: side <=> side\<close> has none.
\<close>

definition line_species :: "string \<Rightarrow> string list" where
  "line_species line =
     (case str_split '': '' line of
        [orig_id, reaction_str] \<Rightarrow>
          (case species_tokens reaction_str of Inl err \<Rightarrow> [] | Inr species_list \<Rightarrow> species_list)
      | _ \<Rightarrow> [])"

section \<open>Rewriting the identifiers of an equation\<close>








section \<open>Selecting the cluster line\<close>

text \<open>
  \<^verbatim>\<open>lines[i]\<close> on a Python list: a negative index counts from the end, an index
  outside \<open>[-n, n)\<close> raises \<^verbatim>\<open>IndexError\<close>.
\<close>

definition py_index :: "'a list \<Rightarrow> int \<Rightarrow> 'a option" where
  "py_index xs i =
     (let n = int (length xs); j = (if i < 0 then n + i else i)
      in if 0 \<le> j \<and> j < n then Some (xs ! nat j) else None)"

definition kcluster_message :: "nat \<Rightarrow> string" where
  "kcluster_message n = ''Invalid kcluster. Must be an int between [1, '' @ str_nat n @ ''], ''"

text \<open>
  Lines 246 to 251 of \<^verbatim>\<open>rateconsts_from_txt\<close>:
  \<^verbatim>\<open>try: values_txt = lines[kcluster - 1]\<close>, the \<^verbatim>\<open>IndexError\<close> replaced by one whose
  message names the range.
\<close>

definition select_cluster :: "string list \<Rightarrow> int \<Rightarrow> py_error + string" where
  "select_cluster lines kcluster =
     (case py_index lines (kcluster - 1) of
        Some values_txt \<Rightarrow> Inr values_txt
      | None \<Rightarrow> Inl (IndexError (kcluster_message (length lines))))"

section \<open>The rate constant loader\<close>

text \<open>
  \<^verbatim>\<open>rateconst_re = re.compile(r"k_(\S*)_(fwd|rev)\Z")\<close>. A match that starts at the
  head of \<open>s\<close> needs \<open>k_\<close> there, \<open>_fwd\<close> or \<open>_rev\<close> at the very end of the string, and
  no whitespace in between; its two groups are the text in between and the direction.
\<close>

definition rateconst_match_at :: "string \<Rightarrow> (string \<times> string) option" where
  "rateconst_match_at s =
     (let body = drop 2 s; n = length body
      in if prefix ''k_'' s \<and> 4 \<le> n
            \<and> (drop (n - 4) body = ''_fwd'' \<or> drop (n - 4) body = ''_rev'')
            \<and> \<not> list_ex is_space (take (n - 4) body)
         then Some (take (n - 4) body, drop (n - 3) body)
         else None)"

text \<open>\<^verbatim>\<open>rateconst_re.search(s)\<close>: the match with the leftmost start, if any.\<close>

fun rateconst_re_search :: "string \<Rightarrow> (string \<times> string) option" where
  "rateconst_re_search [] = None"
| "rateconst_re_search (c # cs) =
     (case rateconst_match_at (c # cs) of
        Some groups \<Rightarrow> Some groups
      | None \<Rightarrow> rateconst_re_search cs)"

text \<open>
  A reaction of the module as the rate constant loader reads it: besides the identifier and
  the formula, the names of its forward and reverse constants (the attributes
  \<^verbatim>\<open>kf_str\<close> and \<^verbatim>\<open>kr_str\<close> of the modelling library) and \<open>rate\<close>, the text of
  \<^verbatim>\<open>str(strip_time(rxn.rate))\<close> at the moment the loader reads it, that is after the
  library has unified the rate parameters of the group.
\<close>

record kinetic_reaction = reaction +
  kf_str :: string
  kr_str :: string
  rate :: string

text \<open>
  Lines 262 and 263: \<^verbatim>\<open>enzyme_module.reactions.get_by_id(id_map["reactions"][rid])\<close>;
  \<open>None\<close> stands for the \<^verbatim>\<open>KeyError\<close> of either lookup, which the loader catches.
\<close>

definition find_reaction :: "(string \<times> string) list \<Rightarrow> kinetic_reaction list \<Rightarrow> string
    \<Rightarrow> kinetic_reaction option" where
  "find_reaction reactions_map reactions rid =
     (case map_of reactions_map rid of
        None \<Rightarrow> None
      | Some new_id \<Rightarrow> find (\<lambda>r. rxn_id r = new_id) reactions)"

text \<open>
  Lines 258 to 268: the dictionary key of the direction and the name of the constant that
  a label stands for. A label that the pattern does not match makes
  \<^verbatim>\<open>match.groups()\<close> raise \<^verbatim>\<open>AttributeError\<close>, here \<open>None\<close>.
\<close>

definition direction_key :: "string \<Rightarrow> string" where
  "direction_key direction = (if direction = ''fwd'' then ''kf'' else ''kr'')"

definition new_rateconst_of :: "(string \<times> string) list \<Rightarrow> kinetic_reaction list \<Rightarrow> string
    \<Rightarrow> string option" where
  "new_rateconst_of reactions_map reactions rateconst =
     (case rateconst_re_search rateconst of
        None \<Rightarrow> None
      | Some (rid, direction) \<Rightarrow>
          (case find_reaction reactions_map reactions rid of
             None \<Rightarrow> Some (direction_key direction @ ''_'' @ rid)
           | Some rxn \<Rightarrow>
               Some (if direction_key direction = ''kf'' then kf_str rxn else kr_str rxn)))"

text \<open>
  Lines 270 to 273. \<^verbatim>\<open>float()\<close> on a string is Python's own; it is the argument
  \<open>pyfloat\<close>, with \<open>None\<close> for its \<^verbatim>\<open>ValueError\<close>. The second attempt rewrites the
  exponent marker \<^verbatim>\<open>*^\<close> to \<^verbatim>\<open>e\<close>, and its \<^verbatim>\<open>ValueError\<close> is not caught. A float is
  read as the real number it denotes, and the rounding of float arithmetic is left out.
\<close>

definition parse_value :: "(string \<Rightarrow> real option) \<Rightarrow> string \<Rightarrow> py_error + real" where
  "parse_value pyfloat v =
     (case pyfloat v of
        Some x \<Rightarrow> Inr x
      | None \<Rightarrow>
          (case pyfloat (replace_all ''*^'' ''e'' v) of
             Some x \<Rightarrow> Inr x
           | None \<Rightarrow> Inl ValueError))"

text \<open>
  What the loop of lines 257 to 275 builds: the two identifier maps for the constants, the
  groups to unify, and the values to install, every one a dictionary in insertion order.
\<close>

record rateconst_state =
  kf_map :: "(string \<times> string) list"
  kr_map :: "(string \<times> string) list"
  to_unify :: "(string \<times> kinetic_reaction list) list"
  rateconst_values :: "(string \<times> real) list"

definition rateconst_step :: "(string \<Rightarrow> real option) \<Rightarrow> (string \<times> string) list
    \<Rightarrow> kinetic_reaction list \<Rightarrow> rateconst_state \<Rightarrow> string \<times> string
    \<Rightarrow> py_error + rateconst_state" where
  "rateconst_step pyfloat reactions_map reactions st p =
     (case rateconst_re_search (fst p) of
        None \<Rightarrow> Inl AttributeError
      | Some (rid, direction) \<Rightarrow>
          (let st1 = (case find_reaction reactions_map reactions rid of
                        None \<Rightarrow>
                          st\<lparr>to_unify := AList.update rid
                                [r \<leftarrow> reactions. str_contains rid (rxn_id r)] (to_unify st)\<rparr>
                      | Some rxn \<Rightarrow> st);
               new_rateconst = the (new_rateconst_of reactions_map reactions (fst p))
           in (case parse_value pyfloat (snd p) of
                 Inl err \<Rightarrow> Inl err
               | Inr x \<Rightarrow>
                   Inr ((if direction_key direction = ''kf''
                         then st1\<lparr>kf_map := AList.update (fst p) new_rateconst (kf_map st1)\<rparr>
                         else st1\<lparr>kr_map := AList.update (fst p) new_rateconst (kr_map st1)\<rparr>)
                        \<lparr>rateconst_values :=
                           AList.update new_rateconst (x * 3600) (rateconst_values st1)\<rparr>))))"

fun rateconst_loop :: "(string \<Rightarrow> real option) \<Rightarrow> (string \<times> string) list
    \<Rightarrow> kinetic_reaction list \<Rightarrow> (string \<times> string) list \<Rightarrow> rateconst_state
    \<Rightarrow> py_error + rateconst_state" where
  "rateconst_loop pyfloat reactions_map reactions [] st = Inr st"
| "rateconst_loop pyfloat reactions_map reactions (p # ps) st =
     (case rateconst_step pyfloat reactions_map reactions st p of
        Inl err \<Rightarrow> Inl err
      | Inr st' \<Rightarrow> rateconst_loop pyfloat reactions_map reactions ps st')"

text \<open>
  Lines 241 to 257: the labels and the values of the selected cluster line, paired by
  \<^verbatim>\<open>zip\<close>, which stops at the shorter of the two.
\<close>

definition rateconst_pairs :: "int \<Rightarrow> string list \<Rightarrow> string list
    \<Rightarrow> py_error + (string \<times> string) list" where
  "rateconst_pairs kcluster label_lines cluster_lines =
     (case select_cluster cluster_lines kcluster of
        Inl err \<Rightarrow> Inl err
      | Inr values_txt \<Rightarrow>
          Inr (zip (map strip label_lines)
                 (str_split '', ''
                    (rstrip_char CHR ''}'' (lstrip_char CHR ''{'' (strip values_txt))))))"

text \<open>
  Lines 284 to 288: the rate law of member \<open>i\<close> of a group of \<open>n\<close> reactions.
  \<^verbatim>\<open>str.replace\<close> puts the coefficient \<open>i + 1\<close> before every occurrence of the group's
  reverse constant, then the coefficient \<open>n - i\<close> before every occurrence of its forward
  constant.
\<close>

definition symmetry_rate :: "string \<Rightarrow> nat \<Rightarrow> nat \<Rightarrow> string \<Rightarrow> string" where
  "symmetry_rate rid i n rate_equation =
     replace_all (''kf_'' @ rid) (str_nat (n - i) @ ''*'' @ ''kf_'' @ rid)
       (replace_all (''kr_'' @ rid) (str_nat (i + 1) @ ''*'' @ ''kr_'' @ rid) rate_equation)"

text \<open>
  A call of \<^verbatim>\<open>add_custom_rate\<close>: the reaction, the rate law and the names of the custom
  parameters, which the call leaves without a value.
\<close>

record custom_rate =
  custom_reaction :: string
  custom_equation :: string
  custom_parameters :: "string list"

text \<open>
  Lines 282 to 292 for one group: the members sorted by identifier (\<^verbatim>\<open>sorted\<close> is
  stable and compares strings character by character), numbered from 0.
\<close>

definition symmetry_rates :: "string \<Rightarrow> kinetic_reaction list \<Rightarrow> custom_rate list" where
  "symmetry_rates rid rxn_list =
     map (\<lambda>(i, rxn).
            \<lparr>custom_reaction = rxn_id rxn,
             custom_equation = symmetry_rate rid i (length rxn_list) (rate rxn),
             custom_parameters = [''kf_'' @ rid, ''kr_'' @ rid]\<rparr>)
         (enumerate 0 (sort_key rxn_id rxn_list))"

text \<open>
  \<^verbatim>\<open>rateconsts_from_txt\<close>: the identifier maps of the constants, the custom rates of
  the groups and the parameter values handed to \<^verbatim>\<open>update_parameters\<close>.
\<close>

record rateconst_result =
  result_kf_map :: "(string \<times> string) list"
  result_kr_map :: "(string \<times> string) list"
  custom_rates :: "custom_rate list"
  installed :: "(string \<times> real) list"

definition rateconsts_from_txt :: "(string \<Rightarrow> real option) \<Rightarrow> (string \<times> string) list
    \<Rightarrow> kinetic_reaction list \<Rightarrow> int \<Rightarrow> string list \<Rightarrow> string list
    \<Rightarrow> py_error + rateconst_result" where
  "rateconsts_from_txt pyfloat reactions_map reactions kcluster label_lines cluster_lines =
     (case rateconst_pairs kcluster label_lines cluster_lines of
        Inl err \<Rightarrow> Inl err
      | Inr pairs \<Rightarrow>
          (case rateconst_loop pyfloat reactions_map reactions pairs
                  \<lparr>kf_map = [], kr_map = [], to_unify = [], rateconst_values = []\<rparr> of
             Inl err \<Rightarrow> Inl err
           | Inr st \<Rightarrow>
               Inr \<lparr>result_kf_map = kf_map st, result_kr_map = kr_map st,
                    custom_rates = concat (map (\<lambda>(rid, rxn_list). symmetry_rates rid rxn_list)
                                             (to_unify st)),
                    installed = rateconst_values st\<rparr>))"

text \<open>
  \<^verbatim>\<open>add_custom_rate\<close> belongs to the modelling library: it keeps the custom rate
  laws in a dictionary keyed by reaction, so a later call for a reaction replaces an
  earlier one. The law the module holds for a reaction after a sequence of calls is that
  of the last call for it.
\<close>

definition installed_custom_rate :: "custom_rate list \<Rightarrow> string \<Rightarrow> custom_rate option" where
  "installed_custom_rate calls rid = find (\<lambda>c. custom_reaction c = rid) (rev calls)"

text \<open>
  An instance of \<^verbatim>\<open>float()\<close> for the examples: plain decimal literals with an optional
  sign, fraction and exponent, read as the exact value of the literal. Every other
  spelling is \<open>None\<close> here.
\<close>

definition digits_value :: "string \<Rightarrow> nat" where
  "digits_value ds = foldl (\<lambda>a c. 10 * a + (of_char c - 48)) 0 ds"

definition unsigned_decimal :: "string \<Rightarrow> real option" where
  "unsigned_decimal m =
     (case str_split ''.'' m of
        [i] \<Rightarrow> if i \<noteq> [] \<and> list_all is_digit i then Some (real (digits_value i)) else None
      | [i, f] \<Rightarrow>
          if i @ f \<noteq> [] \<and> list_all is_digit (i @ f)
          then Some (real (digits_value (i @ f)) / 10 ^ length f) else None
      | _ \<Rightarrow> None)"

definition signed_literal :: "(string \<Rightarrow> real option) \<Rightarrow> string \<Rightarrow> real option" where
  "signed_literal f s =
     (case s of
        [] \<Rightarrow> None
      | c # t \<Rightarrow> if c = CHR ''-'' then map_option uminus (f t)
                else if c = CHR ''+'' then f t else f s)"

definition exponent_literal :: "string \<Rightarrow> int option" where
  "exponent_literal s =
     (case s of
        [] \<Rightarrow> None
      | c # t \<Rightarrow>
          if c = CHR ''-'' then (if t \<noteq> [] \<and> list_all is_digit t then Some (- int (digits_value t)) else None)
          else if c = CHR ''+'' then (if t \<noteq> [] \<and> list_all is_digit t then Some (int (digits_value t)) else None)
          else if list_all is_digit s then Some (int (digits_value s)) else None)"

definition float_literal :: "string \<Rightarrow> real option" where
  "float_literal s =
     (case str_split ''e'' (map (\<lambda>c. if c = CHR ''E'' then CHR ''e'' else c) s) of
        [m] \<Rightarrow> signed_literal unsigned_decimal m
      | [m, e] \<Rightarrow>
          (case (signed_literal unsigned_decimal m, exponent_literal e) of
             (Some x, Some k) \<Rightarrow> Some (if 0 \<le> k then x * 10 ^ nat k else x / 10 ^ nat (- k))
           | _ \<Rightarrow> None)
      | _ \<Rightarrow> None)"

section \<open>The total-enzyme solve\<close>

text \<open>
  \<^verbatim>\<open>sym.solveset\<close> belongs to the symbolic library; its answer is the input here. A finite
  solution set lists its elements in the order \<^verbatim>\<open>list()\<close> yields them. A set with
  infinitely many elements that can be iterated (the integers, the image of a function)
  keeps \<^verbatim>\<open>list()\<close> busy for ever. Any other set (an interval, a condition set) is not
  iterable and \<^verbatim>\<open>list()\<close> raises \<^verbatim>\<open>TypeError\<close>.
\<close>

datatype solveset_result = FiniteSet "sym_number list" | InfiniteSet | NotIterable

text \<open>\<^verbatim>\<open>xs.pop()\<close>: the last element, \<^verbatim>\<open>IndexError\<close> on an empty list.\<close>

definition list_pop :: "'a list \<Rightarrow> py_error + 'a" where
  "list_pop xs = (if xs = [] then Inl (IndexError ''pop from empty list'') else Inr (last xs))"

text \<open>
  \<^verbatim>\<open>calculate_enzyme_total\<close>, lines 67 to 70. The result \<open>None\<close> says that the call
  does not return.
\<close>

definition calculate_enzyme_total :: "solveset_result \<Rightarrow> (py_error + py_number) option" where
  "calculate_enzyme_total solutions =
     (case solutions of
        InfiniteSet \<Rightarrow> None
      | NotIterable \<Rightarrow> Some (Inl TypeError)
      | FiniteSet e_total \<Rightarrow>
          (case list_pop e_total of
             Inl err \<Rightarrow> Some (Inl err)
           | Inr v \<Rightarrow> Some (py_float v)))"

section \<open>Initial concentrations of the enzyme forms\<close>

text \<open>
  The setter behind \<^verbatim>\<open>specie.ic = ic\<close> belongs to the modelling library: it refuses a
  value below zero with \<^verbatim>\<open>ValueError\<close> and stores any other float.
\<close>

definition set_ic :: "py_number \<Rightarrow> py_error + py_number" where
  "set_ic v = (if float_lt v (Finite 0) then Inl ValueError else Inr v)"

text \<open>
  Lines 323 to 326 of \<^verbatim>\<open>steady_state_concentrations_from_txt\<close>: \<open>evaluated\<close> is the
  value of the substituted equation, and the result is the initial concentration that the
  specie holds after the assignment of line 326, or the error that the line raised.
\<close>

definition steady_state_ic :: "sym_number \<Rightarrow> py_number \<Rightarrow> py_error + py_number" where
  "steady_state_ic evaluated zero_tol =
     (case py_float evaluated of
        Inl err \<Rightarrow> Inl err
      | Inr ic \<Rightarrow> set_ic (if float_le (float_abs ic) zero_tol then Finite 0 else ic))"

section \<open>Properties\<close>

subsection \<open>The cluster index\<close>

lemma py_index_in_range:
  assumes "1 \<le> k" and "k \<le> int (length xs)"
  shows "py_index xs (k - 1) = Some (xs ! nat (k - 1))"
  using assms by (simp add: py_index_def Let_def)

lemma py_index_above:
  assumes "int (length xs) < k"
  shows "py_index xs (k - 1) = None"
  using assms by (simp add: py_index_def Let_def)

lemma py_index_wraps:
  assumes "1 - int (length xs) \<le> k" and "k \<le> 0"
  shows "py_index xs (k - 1) = Some (xs ! nat (int (length xs) + k - 1))"
  using assms by (simp add: py_index_def Let_def algebra_simps)

text \<open>
  What the selection does on the whole range of indices: the indices from 1 to the number
  of lines select 1-based, the indices above raise with the message, and so do the indices
  below \<open>1 - N\<close>; the indices from \<open>1 - N\<close> to 0 select a line counted from the end.
\<close>

lemma select_cluster_cases:
  "select_cluster lines k =
     (if 1 \<le> k \<and> k \<le> int (length lines) then Inr (lines ! nat (k - 1))
      else if 1 - int (length lines) \<le> k \<and> k \<le> 0
        then Inr (lines ! nat (int (length lines) + k - 1))
      else Inl (IndexError (kcluster_message (length lines))))"
proof -
  consider "1 \<le> k" "k \<le> int (length lines)" | "int (length lines) < k"
    | "1 - int (length lines) \<le> k" "k \<le> 0" | "k < 1 - int (length lines)"
    by linarith
  then show ?thesis
  proof cases
    case 1
    then show ?thesis by (simp add: select_cluster_def py_index_in_range)
  next
    case 2
    then show ?thesis by (simp add: select_cluster_def py_index_above)
  next
    case 3
    then show ?thesis by (simp add: select_cluster_def py_index_wraps)
  next
    case 4
    then show ?thesis by (simp add: select_cluster_def py_index_def Let_def)
  qed
qed

text \<open>
  C3, on the code: a cluster index of 0 is outside the range \<open>[1, 3]\<close> that the error
  message names, and yet the loader raises nothing for it and takes the last of the three
  lines; the index \<open>-2\<close> takes the first. The index 2 takes the second line, and the
  index 5 raises with the message that names the range.
\<close>

theorem select_cluster_zero_index:
  "select_cluster [''{1, 2}'', ''{3, 4}'', ''{5, 6}''] 0 = Inr ''{5, 6}''
   \<and> select_cluster [''{1, 2}'', ''{3, 4}'', ''{5, 6}''] (- 2) = Inr ''{1, 2}''
   \<and> select_cluster [''{1, 2}'', ''{3, 4}'', ''{5, 6}''] 2 = Inr ''{3, 4}''
   \<and> select_cluster [''{1, 2}'', ''{3, 4}'', ''{5, 6}''] 5
       = Inl (IndexError ''Invalid kcluster. Must be an int between [1, 3], '')"
  by (simp add: select_cluster_def py_index_def kcluster_message_def str_nat.simps digit_char_def)

subsection \<open>The total-enzyme solve and the clamp\<close>

text \<open>
  C2, as stated, fails: with two solutions the solve returns a value, the last one of
  the list, and raises nothing.
\<close>

theorem calculate_enzyme_total_two_solutions:
  "calculate_enzyme_total (FiniteSet [Num (Finite 1), Num (Finite 2)]) = Some (Inr (Finite 2))"
  by (simp add: calculate_enzyme_total_def list_pop_def py_float_def)

text \<open>
  C2, amended: the number of solutions is never compared with one. The solve raises
  \<^verbatim>\<open>IndexError\<close> when the solution set is empty, and \<^verbatim>\<open>TypeError\<close> when the set is not
  iterable. For a finite set with one or more elements it looks at the last element of the
  list only: it returns that element when it converts to a float and raises
  \<^verbatim>\<open>TypeError\<close> when it does not. On an infinite iterable set the solve does not return.
\<close>

theorem calculate_enzyme_total_last:
  "calculate_enzyme_total (FiniteSet []) = Some (Inl (IndexError ''pop from empty list''))
   \<and> calculate_enzyme_total (FiniteSet (sols @ [Num x])) = Some (Inr x)
   \<and> calculate_enzyme_total (FiniteSet (sols @ [NotNum])) = Some (Inl TypeError)
   \<and> calculate_enzyme_total NotIterable = Some (Inl TypeError)
   \<and> calculate_enzyme_total InfiniteSet = None"
  by (simp add: calculate_enzyme_total_def list_pop_def py_float_def)

text \<open>
  C9, as stated, fails: the magnitude of \<open>-2\<close> is above the tolerance, and the value is
  not stored; the assignment raises \<^verbatim>\<open>ValueError\<close>.
\<close>

theorem steady_state_ic_negative:
  "float_lt (Finite (1 / 10 ^ 15)) (float_abs (Finite (- 2)))
   \<and> steady_state_ic (Num (Finite (- 2))) (Finite (1 / 10 ^ 15)) = Inl ValueError"
  by (simp add: steady_state_ic_def py_float_def set_ic_def float_lt_def)

text \<open>
  C9, amended: an evaluated concentration whose magnitude is below the tolerance is
  stored as exactly 0. One whose magnitude is above the tolerance is stored unchanged when
  it is not negative; when it is negative nothing is stored and the assignment raises
  \<^verbatim>\<open>ValueError\<close>.
\<close>

theorem steady_state_ic_clamp:
  "(float_lt (float_abs ic) zero_tol \<longrightarrow>
      steady_state_ic (Num ic) zero_tol = Inr (Finite 0))
   \<and> (float_lt zero_tol (float_abs ic) \<and> \<not> float_lt ic (Finite 0) \<longrightarrow>
      steady_state_ic (Num ic) zero_tol = Inr ic)
   \<and> (float_lt zero_tol (float_abs ic) \<and> float_lt ic (Finite 0) \<longrightarrow>
      steady_state_ic (Num ic) zero_tol = Inl ValueError)"
proof (intro conjI impI)
  assume "float_lt (float_abs ic) zero_tol"
  then have "float_le (float_abs ic) zero_tol" by (simp add: float_lt_def)
  then show "steady_state_ic (Num ic) zero_tol = Inr (Finite 0)"
    by (simp add: steady_state_ic_def py_float_def set_ic_def float_lt_def)
next
  assume "float_lt zero_tol (float_abs ic) \<and> \<not> float_lt ic (Finite 0)"
  then have "\<not> float_le (float_abs ic) zero_tol" and "\<not> float_lt ic (Finite 0)"
    by (simp_all add: float_lt_def)
  then show "steady_state_ic (Num ic) zero_tol = Inr ic"
    by (simp add: steady_state_ic_def py_float_def set_ic_def)
next
  assume "float_lt zero_tol (float_abs ic) \<and> float_lt ic (Finite 0)"
  then have "\<not> float_le (float_abs ic) zero_tol" and "float_lt ic (Finite 0)"
    by (simp_all add: float_lt_def)
  then show "steady_state_ic (Num ic) zero_tol = Inl ValueError"
    by (simp add: steady_state_ic_def py_float_def set_ic_def)
qed

theorem steady_state_ic_clamp_witness:
  "float_lt (float_abs (Finite (3 / 10 ^ 16))) (Finite (1 / 10 ^ 15))
   \<and> steady_state_ic (Num (Finite (3 / 10 ^ 16))) (Finite (1 / 10 ^ 15)) = Inr (Finite 0)
   \<and> float_lt (Finite (1 / 10 ^ 15)) (float_abs (Finite 2))
   \<and> steady_state_ic (Num (Finite 2)) (Finite (1 / 10 ^ 15)) = Inr (Finite 2)
   \<and> float_lt (Finite (1 / 10 ^ 15)) (float_abs (Finite (- 2)))
   \<and> float_lt (Finite (- 2)) (Finite 0)
   \<and> steady_state_ic (Num (Finite (- 2))) (Finite (1 / 10 ^ 15)) = Inl ValueError"
proof -
  have a: "float_lt (float_abs (Finite (3 / 10 ^ 16))) (Finite (1 / 10 ^ 15))"
    by (simp add: float_lt_def)
  have b: "float_lt (Finite (1 / 10 ^ 15)) (float_abs (Finite 2))"
    by (simp add: float_lt_def)
  have b': "\<not> float_lt (Finite 2) (Finite 0)"
    by (simp add: float_lt_def)
  have c: "float_lt (Finite (1 / 10 ^ 15)) (float_abs (Finite (- 2)))"
    by (simp add: float_lt_def)
  have c': "float_lt (Finite (- 2)) (Finite 0)"
    by (simp add: float_lt_def)
  from a b b' c c'
    steady_state_ic_clamp [of "Finite (3 / 10 ^ 16)" "Finite (1 / 10 ^ 15)"]
    steady_state_ic_clamp [of "Finite 2" "Finite (1 / 10 ^ 15)"]
    steady_state_ic_clamp [of "Finite (- 2)" "Finite (1 / 10 ^ 15)"]
  show ?thesis by blast
qed

subsection \<open>Facts about the string functions\<close>

lemma replace_all_Nil: "old \<noteq> [] \<Longrightarrow> replace_all old new [] = []"
  by (simp add: replace_all.simps)

lemma replace_all_self: "old \<noteq> [] \<Longrightarrow> replace_all old new (old @ s) = new @ replace_all old new s"
  by (subst replace_all.simps) simp

lemma replace_all_skip:
  "old \<noteq> [] \<Longrightarrow> \<not> prefix old (a # s) \<Longrightarrow> replace_all old new (a # s) = a # replace_all old new s"
  by (subst replace_all.simps) simp






subsection \<open>The identifier normaliser\<close>








subsection \<open>Bound forms and the compartment\<close>

lemma bound_species_list:
  "bs \<noteq> [] \<Longrightarrow> bound_species (CompList l) bs bm = Inl TypeError"
  by (cases bs) simp_all

lemma bound_species_str:
  "\<exists>r. bound_species (CompStr c) bs bm = Inr r"
  by (induction bs arbitrary: bm) simp_all

lemma split_not_Nil: "bound_metabolites_split s \<noteq> []"
  by (induction s) (auto split: list.splits)

lemma split_tl_not_Nil:
  "bound_metabolites_search s \<Longrightarrow> tl (bound_metabolites_split s) \<noteq> []"
proof (induction s)
  case Nil
  then show ?case by (simp add: bound_metabolites_search_def)
next
  case (Cons a s)
  show ?case
  proof (cases "is_bound_delim a")
    case True
    then show ?thesis by (simp add: split_not_Nil)
  next
    case False
    with Cons have "tl (bound_metabolites_split s) \<noteq> []"
      by (simp add: bound_metabolites_search_def)
    with False show ?thesis by (auto split: list.splits)
  qed
qed

lemma normalize_CompStr:
  "one_compartment orig_id \<Longrightarrow> \<exists>c. snd (normalize_id orig_id) = CompStr c"
  by (cases "snd (correct_isomer orig_id)")
     (auto simp: one_compartment_def normalize_id_def correct_compartment_def split: list.splits)

lemma normalize_CompList:
  "\<not> one_compartment orig_id \<Longrightarrow> \<exists>l. snd (normalize_id orig_id) = CompList l"
  by (auto simp: one_compartment_def normalize_id_def correct_compartment_def split: list.splits)

lemma specie_from_id_error:
  "specie_from_id enzyme_id orig_id = Inl err \<Longrightarrow> err = TypeError \<and> raises_type_error enzyme_id orig_id"
proof -
  assume a: "specie_from_id enzyme_id orig_id = Inl err"
  then have bf: "is_bound_form enzyme_id orig_id"
    by (auto simp: specie_from_id_def is_bound_form_def Let_def split: if_splits)
  have "\<not> one_compartment orig_id"
  proof
    assume "one_compartment orig_id"
    then obtain c where "snd (normalize_id orig_id) = CompStr c"
      using normalize_CompStr by blast
    with a bf bound_species_str [of c "tl (bound_metabolites_split (fst (normalize_id orig_id)))" "[]"]
    show False
      by (auto simp: specie_from_id_def is_bound_form_def Let_def)
  qed
  then obtain l where l: "snd (normalize_id orig_id) = CompList l"
    using normalize_CompList by blast
  from bf have "tl (bound_metabolites_split (fst (normalize_id orig_id))) \<noteq> []"
    by (simp add: is_bound_form_def split_tl_not_Nil)
  then have "bound_species (CompList l) (tl (bound_metabolites_split (fst (normalize_id orig_id)))) [] = Inl TypeError"
    by (rule bound_species_list)
  with a bf l have "err = TypeError"
    by (simp add: specie_from_id_def is_bound_form_def Let_def)
  with bf \<open>\<not> one_compartment orig_id\<close> show ?thesis
    by (simp add: raises_type_error_def)
qed

lemma specie_from_id_raises:
  assumes "raises_type_error enzyme_id orig_id"
  shows "specie_from_id enzyme_id orig_id = Inl TypeError"
proof -
  from assms have bf: "is_bound_form enzyme_id orig_id" and "\<not> one_compartment orig_id"
    by (simp_all add: raises_type_error_def)
  then obtain l where l: "snd (normalize_id orig_id) = CompList l"
    using normalize_CompList by blast
  from bf have "tl (bound_metabolites_split (fst (normalize_id orig_id))) \<noteq> []"
    by (simp add: is_bound_form_def split_tl_not_Nil)
  then have "bound_species (CompList l) (tl (bound_metabolites_split (fst (normalize_id orig_id)))) [] = Inl TypeError"
    by (rule bound_species_list)
  with bf l show ?thesis
    by (simp add: specie_from_id_def is_bound_form_def Let_def)
qed

lemma species_loop_result:
  "species_loop enzyme_id ids st =
     (if list_ex (raises_type_error enzyme_id) ids then Inl TypeError
      else species_loop enzyme_id ids st) \<and>
   (\<not> list_ex (raises_type_error enzyme_id) ids \<longrightarrow> (\<exists>r. species_loop enzyme_id ids st = Inr r))"
proof (induction ids arbitrary: st)
  case Nil
  then show ?case by simp
next
  case (Cons a ids)
  show ?case
  proof (cases "specie_from_id enzyme_id a")
    case (Inl err)
    then have "err = TypeError" and "raises_type_error enzyme_id a"
      using specie_from_id_error by blast+
    with Inl show ?thesis by simp
  next
    case (Inr r)
    then have nr: "\<not> raises_type_error enzyme_id a"
      using specie_from_id_raises by fastforce
    obtain new_id sp where r: "r = (new_id, sp)" by (cases r)
    from Cons [of "(AList.update a new_id (fst st), snd st @ [sp])"] Inr r nr
    show ?thesis by auto
  qed
qed

lemma specie_from_id_final:
  assumes "specie_from_id enzyme_id orig_id = Inr (new_id, sp)"
  shows "new_id = final_id enzyme_id orig_id \<and> id_of_specie sp = final_id enzyme_id orig_id"
  using assms
  by (auto simp: specie_from_id_def final_id_def is_bound_form_def id_of_specie_def Let_def
      split: if_splits sum.splits)

lemma species_loop_ids:
  assumes "species_loop enzyme_id ids st = Inr st'"
  shows "map id_of_specie (snd st') = map id_of_specie (snd st) @ map (final_id enzyme_id) ids"
  using assms
proof (induction ids arbitrary: st)
  case Nil
  then show ?case by simp
next
  case (Cons a ids)
  from Cons.prems obtain new_id sp where
    one: "specie_from_id enzyme_id a = Inr (new_id, sp)"
    and rest: "species_loop enzyme_id ids (AList.update a new_id (fst st), snd st @ [sp]) = Inr st'"
    by (auto split: sum.splits)
  from specie_from_id_final [OF one] Cons.IH [OF rest] show ?case by simp
qed

text \<open>
  C10: the species loader raises \<^verbatim>\<open>TypeError\<close> exactly when some line of the file is
  an enzyme form with a bound-ligand delimiter that does not have exactly one bracketed
  letter left as its compartment. It completes only when every such line has one: exactly
  when, besides, no identifier of the file is empty after normalisation and no two lines
  give the same identifier, which \<^verbatim>\<open>add_metabolites\<close> refuses with \<^verbatim>\<open>ValueError\<close>.
\<close>

theorem bound_form_type_error:
  "(metabolites_from_txt enzyme_id file_lines = Inl TypeError)
     = (\<exists>l \<in> set file_lines. is_bound_form enzyme_id (strip l) \<and> \<not> one_compartment (strip l))
   \<and> (\<exists>r. metabolites_from_txt enzyme_id file_lines = Inr r)
     = ((\<forall>l \<in> set file_lines. is_bound_form enzyme_id (strip l) \<longrightarrow> one_compartment (strip l))
        \<and> [] \<notin> set (map (\<lambda>l. final_id enzyme_id (strip l)) file_lines)
        \<and> distinct (map (\<lambda>l. final_id enzyme_id (strip l)) file_lines))
   \<and> (metabolites_from_txt enzyme_id file_lines = Inl ValueError)
     = ((\<forall>l \<in> set file_lines. is_bound_form enzyme_id (strip l) \<longrightarrow> one_compartment (strip l))
        \<and> ([] \<in> set (map (\<lambda>l. final_id enzyme_id (strip l)) file_lines)
           \<or> \<not> distinct (map (\<lambda>l. final_id enzyme_id (strip l)) file_lines)))"
proof -
  let ?ids = "map strip file_lines"
  let ?final = "map (\<lambda>l. final_id enzyme_id (strip l)) file_lines"
  have ex: "list_ex (raises_type_error enzyme_id) ?ids
      = (\<exists>l \<in> set file_lines. is_bound_form enzyme_id (strip l) \<and> \<not> one_compartment (strip l))"
    by (auto simp: list_ex_iff raises_type_error_def)
  show ?thesis
  proof (cases "list_ex (raises_type_error enzyme_id) ?ids")
    case True
    then have "species_loop enzyme_id ?ids ([], []) = Inl TypeError"
      using species_loop_result [of enzyme_id ?ids "([], [])"] by simp
    then have "metabolites_from_txt enzyme_id file_lines = Inl TypeError"
      by (simp add: metabolites_from_txt_def)
    with True ex show ?thesis by auto
  next
    case False
    then obtain st where st: "species_loop enzyme_id ?ids ([], []) = Inr st"
      using species_loop_result [of enzyme_id ?ids "([], [])"] by auto
    from species_loop_ids [OF st] have ids: "map id_of_specie (snd st) = ?final"
      by (simp add: comp_def)
    show ?thesis
    proof (cases "[] \<in> set ?final \<or> \<not> distinct ?final")
      case True
      with st ids have "metabolites_from_txt enzyme_id file_lines = Inl ValueError"
        by (simp add: metabolites_from_txt_def add_metabolites_def)
      with True False ex show ?thesis by auto
    next
      case ok: False
      with st ids have "metabolites_from_txt enzyme_id file_lines = Inr (fst st, snd st)"
        by (simp add: metabolites_from_txt_def add_metabolites_def)
      with ok False ex show ?thesis by auto
    qed
  qed
qed

theorem bound_form_type_error_witness:
  "is_bound_form ''PFK'' (strip ''E_PFK&atp'') \<and> \<not> one_compartment (strip ''E_PFK&atp'')
   \<and> metabolites_from_txt ''PFK'' [''E_PFK&atp''] = Inl TypeError
   \<and> is_bound_form ''PFK'' (strip ''E_PFK[c]&atp'') \<and> one_compartment (strip ''E_PFK[c]&atp'')
   \<and> metabolites_from_txt ''PFK'' [''E_PFK[c]&atp'']
       = Inr ([(''E_PFK[c]&atp'', ''E_PFK_c_atp'')],
              [EnzymeModuleForm ''E_PFK_c_atp'' (CompStr CHR ''c'') [(''atp_c'', 1)]])
   \<and> metabolites_from_txt ''PFK'' [''atp[c]'', ''atp_c''] = Inl ValueError
   \<and> metabolites_from_txt ''PFK'' [''atp[c]'', [], ''adp[c]''] = Inl ValueError"
proof -
  have a: "is_bound_form ''PFK'' (strip ''E_PFK&atp'') \<and> \<not> one_compartment (strip ''E_PFK&atp'')"
    by code_simp
  have b: "is_bound_form ''PFK'' (strip ''E_PFK[c]&atp'') \<and> one_compartment (strip ''E_PFK[c]&atp'')"
    by code_simp
  have c: "metabolites_from_txt ''PFK'' [''E_PFK[c]&atp'']
       = Inr ([(''E_PFK[c]&atp'', ''E_PFK_c_atp'')],
              [EnzymeModuleForm ''E_PFK_c_atp'' (CompStr CHR ''c'') [(''atp_c'', 1)]])"
    by code_simp
  have d: "metabolites_from_txt ''PFK'' [''atp[c]'', ''atp_c''] = Inl ValueError"
    by code_simp
  have e: "metabolites_from_txt ''PFK'' [''atp[c]'', [], ''adp[c]''] = Inl ValueError"
    by code_simp
  from a have "metabolites_from_txt ''PFK'' [''E_PFK&atp''] = Inl TypeError"
    using bound_form_type_error [of "''PFK''" "[''E_PFK&atp'']"] by simp
  with a b c d e show ?thesis by simp
qed

subsection \<open>The reaction loader and the identifier map\<close>

lemma fix_species_missing:
  assumes "\<exists>tok \<in> set toks. map_of species_map tok = None"
  shows "\<exists>e. fix_species sub species_map toks s = Inl e
     \<and> (e = KeyError (hd (filter (\<lambda>tok. map_of species_map tok = None) toks))
        \<or> (\<exists>p r t c. sub p r t c = Inl e))"
  using assms
proof (induction toks arbitrary: s)
  case Nil
  then show ?case by simp
next
  case (Cons tok toks)
  show ?case
  proof (cases "map_of species_map tok")
    case None
    then show ?thesis by simp
  next
    case (Some new_id)
    with Cons.prems have rest: "\<exists>t \<in> set toks. map_of species_map t = None" by auto
    show ?thesis
    proof (cases "sub (escape_brackets tok) (Template new_id) s 1")
      case (Inl err)
      with Some show ?thesis by auto
    next
      case (Inr fixed)
      with Some Cons.IH [OF rest, of fixed] show ?thesis by simp
    qed
  qed
qed

lemma line_species_cases:
  assumes "tok \<in> set (line_species line)"
  obtains orig_id reaction_str where "str_split '': '' line = [orig_id, reaction_str]"
    and "species_tokens reaction_str = Inr (line_species line)"
proof -
  from assms have ne: "line_species line \<noteq> []" by auto
  then obtain orig_id reaction_str where sp: "str_split '': '' line = [orig_id, reaction_str]"
    by (auto simp: line_species_def split: list.splits)
  with ne have "species_tokens reaction_str = Inr (line_species line)"
    by (auto simp: line_species_def split: sum.splits)
  with sp that show thesis by blast
qed

lemma reaction_from_line_missing:
  assumes "\<exists>tok \<in> set (line_species line). map_of species_map tok = None"
  shows "\<exists>e. reaction_from_line sub species_map line = Inl e
     \<and> (e = KeyError (hd (filter (\<lambda>tok. map_of species_map tok = None) (line_species line)))
        \<or> (\<exists>p r t c. sub p r t c = Inl e))"
proof -
  from assms obtain tok where "tok \<in> set (line_species line)" by blast
  then obtain orig_id reaction_str where sp: "str_split '': '' line = [orig_id, reaction_str]"
    and toks: "species_tokens reaction_str = Inr (line_species line)"
    by (rule line_species_cases)
  from fix_species_missing [OF assms, of sub reaction_str]
  obtain e where "fix_species sub species_map (line_species line) reaction_str = Inl e"
    and "e = KeyError (hd (filter (\<lambda>tok. map_of species_map tok = None) (line_species line)))
        \<or> (\<exists>p r t c. sub p r t c = Inl e)"
    by blast
  with sp toks show ?thesis by (simp add: reaction_from_line_def)
qed

lemma reactions_loop_missing:
  assumes "\<exists>line \<in> set lines. \<exists>tok \<in> set (line_species line). map_of species_map tok = None"
  shows "\<exists>e. reactions_loop sub species_map lines st = Inl e"
  using assms
proof (induction lines arbitrary: st)
  case Nil
  then show ?case by simp
next
  case (Cons line lines)
  show ?case
  proof (cases "reaction_from_line sub species_map line")
    case (Inl err)
    then show ?thesis by simp
  next
    case (Inr r)
    have "\<not> (\<exists>tok \<in> set (line_species line). map_of species_map tok = None)"
    proof
      assume "\<exists>tok \<in> set (line_species line). map_of species_map tok = None"
      from reaction_from_line_missing [OF this, of sub] Inr show False by auto
    qed
    with Cons.prems have "\<exists>l \<in> set lines. \<exists>tok \<in> set (line_species l). map_of species_map tok = None"
      by auto
    from Cons.IH [OF this] Inr show ?thesis by (cases r) simp
  qed
qed

text \<open>
  C4: a line of the reaction file whose formula has a species token without an entry in
  the identifier map makes the loader raise, whatever the substitution does: the error is
  the \<^verbatim>\<open>KeyError\<close> of the first such token, unless the substitution itself raised on an
  earlier token. No reaction is returned for the line, and the loader as a whole returns
  no result for a file with such a line.
\<close>

theorem missing_species_raises:
  "((\<exists>tok \<in> set (line_species line). map_of species_map tok = None) \<longrightarrow>
      (\<exists>e. reaction_from_line sub species_map line = Inl e
        \<and> (e = KeyError (hd (filter (\<lambda>tok. map_of species_map tok = None) (line_species line)))
           \<or> (\<exists>p r t c. sub p r t c = Inl e))))
   \<and> ((\<exists>l \<in> set file_lines. \<exists>tok \<in> set (line_species (strip l)). map_of species_map tok = None)
      \<longrightarrow> (\<exists>e. reactions_from_txt sub species_map file_lines = Inl e))"
proof (intro conjI impI)
  assume "\<exists>tok \<in> set (line_species line). map_of species_map tok = None"
  then show "\<exists>e. reaction_from_line sub species_map line = Inl e
        \<and> (e = KeyError (hd (filter (\<lambda>tok. map_of species_map tok = None) (line_species line)))
           \<or> (\<exists>p r t c. sub p r t c = Inl e))"
    by (rule reaction_from_line_missing)
next
  assume "\<exists>l \<in> set file_lines. \<exists>tok \<in> set (line_species (strip l)). map_of species_map tok = None"
  then have "\<exists>line \<in> set (map strip file_lines).
      \<exists>tok \<in> set (line_species line). map_of species_map tok = None"
    by simp
  then show "\<exists>e. reactions_from_txt sub species_map file_lines = Inl e"
    unfolding reactions_from_txt_def by (rule reactions_loop_missing)
qed

theorem missing_species_raises_witness:
  "(\<exists>tok \<in> set (line_species ''R1: atp_c + 2pg_c <=> adp_c'').
       map_of [(''atp_c'', ''atp_c''), (''2pg_c'', ''_2pg_c'')] tok = None)
   \<and> reaction_from_line re_sub_literal [(''atp_c'', ''atp_c''), (''2pg_c'', ''_2pg_c'')]
        ''R1: atp_c + 2pg_c <=> adp_c'' = Inl (KeyError ''adp_c'')
   \<and> (\<exists>e. reactions_from_txt re_sub_literal [(''atp_c'', ''atp_c''), (''2pg_c'', ''_2pg_c'')]
        [''R1: atp_c + 2pg_c <=> adp_c''] = Inl e)"
proof -
  let ?m = "[(''atp_c'', ''atp_c''), (''2pg_c'', ''_2pg_c'')]"
  have toks: "line_species ''R1: atp_c + 2pg_c <=> adp_c'' = [''atp_c'', ''2pg_c'', ''adp_c'']"
    by code_simp
  have st: "strip ''R1: atp_c + 2pg_c <=> adp_c'' = ''R1: atp_c + 2pg_c <=> adp_c''"
    by code_simp
  have h: "\<exists>tok \<in> set (line_species ''R1: atp_c + 2pg_c <=> adp_c''). map_of ?m tok = None"
    unfolding toks by simp
  have k: "reaction_from_line re_sub_literal ?m ''R1: atp_c + 2pg_c <=> adp_c''
      = Inl (KeyError ''adp_c'')"
    by code_simp
  have "\<exists>e. reactions_from_txt re_sub_literal ?m [''R1: atp_c + 2pg_c <=> adp_c''] = Inl e"
    using missing_species_raises [of "''R1: atp_c + 2pg_c <=> adp_c''" ?m re_sub_literal
        "[''R1: atp_c + 2pg_c <=> adp_c'']"] h st
    by simp
  with h k show ?thesis by blast
qed

text \<open>
  C5, as stated, fails: the fixed species file lists \<open>atp_c\<close> and \<open>2pg_c\<close> only, so
  the token \<open>adp_c\<close> of the fixed reaction file has no entry in the identifier map and
  the reaction loader raises \<^verbatim>\<open>KeyError\<close>.
\<close>

theorem fixed_files_raise_key_error:
  "species_then_reactions re_sub_literal ''PFK''
     [''atp_c'' @ [CHR 0x0A], ''2pg_c'' @ [CHR 0x0A]]
     [''R1: atp_c + 2pg_c <=> adp_c'' @ [CHR 0x0A]]
   = Inl (KeyError ''adp_c'')"
  by code_simp

text \<open>
  C5, amended: on the two fixed files the reaction loader raises \<^verbatim>\<open>KeyError\<close> for
  \<open>adp_c\<close>; once the species file also lists \<open>adp_c\<close>, the loader hands the reaction
  builder the formula \<open>atp_c + _2pg_c <=> adp_c\<close>, whose participants are exactly
  \<open>atp_c\<close>, \<open>_2pg_c\<close> and \<open>adp_c\<close>.
\<close>

theorem fixed_files_with_adp:
  "species_then_reactions re_sub_literal ''PFK''
     [''atp_c'' @ [CHR 0x0A], ''2pg_c'' @ [CHR 0x0A]]
     [''R1: atp_c + 2pg_c <=> adp_c'' @ [CHR 0x0A]]
   = Inl (KeyError ''adp_c'')
   \<and> species_then_reactions re_sub_literal ''PFK''
     [''atp_c'' @ [CHR 0x0A], ''2pg_c'' @ [CHR 0x0A], ''adp_c'' @ [CHR 0x0A]]
     [''R1: atp_c + 2pg_c <=> adp_c'' @ [CHR 0x0A]]
   = Inr ([(''R1'', ''R1'')], [\<lparr>rxn_id = ''R1'', formula = ''atp_c + _2pg_c <=> adp_c''\<rparr>])
   \<and> species_tokens ''atp_c + _2pg_c <=> adp_c'' = Inr [''atp_c'', ''_2pg_c'', ''adp_c'']"
  by code_simp

subsection \<open>Rewriting raw identifiers in an equation\<close>




lemma literal_pattern_escaped:
  "\<not> is_alnum d \<Longrightarrow> literal_pattern (backslash # d # rest) = map_option ((#) d) (literal_pattern rest)"
  by simp



lemma replace_all_append_skip:
  "old \<noteq> [] \<Longrightarrow> hd old \<notin> set pre \<Longrightarrow>
   replace_all old new (pre @ s) = pre @ replace_all old new s"
proof (induction pre)
  case Nil
  then show ?case by simp
next
  case (Cons a pre)
  then have "\<not> prefix old (a # pre @ s)"
    by (cases old) auto
  with Cons show ?case by (simp add: replace_all_skip)
qed

lemma replace_all_occurrence:
  "old \<noteq> [] \<Longrightarrow> hd old \<notin> set pre \<Longrightarrow>
   replace_all old new (pre @ old @ rest) = pre @ new @ replace_all old new rest"
  by (simp add: replace_all_append_skip replace_all_self)




lemma str_contains_prefix_mono:
  "str_contains old s \<Longrightarrow> prefix s t \<Longrightarrow> str_contains old t"
proof (induction s arbitrary: t)
  case Nil
  then show ?case by (cases t) simp_all
next
  case (Cons a s)
  from Cons.prems(2) obtain t' where t: "t = a # t'" and p: "prefix s t'"
    by (cases t) auto
  from Cons.prems(1) consider "prefix old (a # s)" | "str_contains old s" by auto
  then show ?case
  proof cases
    case 1
    from 1 Cons.prems(2) have "prefix old t" by (rule prefix_order.trans)
    then show ?thesis using t by simp
  next
    case 2
    from Cons.IH [OF this p] t show ?thesis by simp
  qed
qed





subsection \<open>Symmetry coefficients\<close>

lemma digit_char_not_k: "d < 10 \<Longrightarrow> digit_char d \<noteq> CHR ''k''"
proof -
  assume "d < 10"
  then have "d \<in> {0, 1, 2, 3, 4, 5, 6, 7, 8, 9}" by auto
  then show ?thesis by (auto simp: digit_char_def)
qed

lemma str_nat_no_k: "CHR ''k'' \<notin> set (str_nat n)"
proof (induction n rule: str_nat.induct)
  case (1 n)
  show ?case
  proof (cases "n < 10")
    case True
    then show ?thesis using digit_char_not_k [of n] by (subst str_nat.simps) auto
  next
    case False
    moreover have "digit_char (n mod 10) \<noteq> CHR ''k''" by (rule digit_char_not_k) simp
    ultimately show ?thesis using 1 by (subst str_nat.simps) auto
  qed
qed

lemma replace_all_absent:
  "old \<noteq> [] \<Longrightarrow> hd old \<notin> set s \<Longrightarrow> replace_all old new s = s"
  using replace_all_append_skip [of old s new "[]"] by (simp add: replace_all_Nil)

lemma replace_kr_in_rate:
  assumes "CHR ''k'' \<notin> set (pre @ mid @ post @ rid)"
  shows "replace_all (''kr_'' @ rid) new (pre @ (''kf_'' @ rid) @ mid @ (''kr_'' @ rid) @ post)
         = pre @ (''kf_'' @ rid) @ mid @ new @ post"
proof -
  let ?kr = "''kr_'' @ rid"
  have ne: "?kr \<noteq> []" by simp
  have hd: "hd ?kr = CHR ''k''" by simp
  have 1: "replace_all ?kr new (pre @ (''kf_'' @ rid) @ mid @ ?kr @ post)
      = pre @ replace_all ?kr new ((''kf_'' @ rid) @ mid @ ?kr @ post)"
    using assms by (intro replace_all_append_skip) simp_all
  have 2: "replace_all ?kr new ((''kf_'' @ rid) @ mid @ ?kr @ post)
      = CHR ''k'' # replace_all ?kr new ((''f_'' @ rid @ mid) @ ?kr @ post)"
    using replace_all_skip [of ?kr "CHR ''k''" "(''f_'' @ rid @ mid) @ ?kr @ post" new] by simp
  have 3: "replace_all ?kr new ((''f_'' @ rid @ mid) @ ?kr @ post)
      = (''f_'' @ rid @ mid) @ new @ replace_all ?kr new post"
    using assms by (intro replace_all_occurrence) simp_all
  have 4: "replace_all ?kr new post = post"
    using assms by (intro replace_all_absent) simp_all
  from 1 2 3 4 show ?thesis by simp
qed

lemma replace_kf_in_rate:
  assumes "CHR ''k'' \<notin> set (pre @ mid @ post @ rid)" and "CHR ''k'' \<notin> set coeff"
  shows "replace_all (''kf_'' @ rid) new (pre @ (''kf_'' @ rid) @ mid @ (coeff @ ''kr_'' @ rid) @ post)
         = pre @ new @ mid @ (coeff @ ''kr_'' @ rid) @ post"
proof -
  let ?kf = "''kf_'' @ rid"
  have 1: "replace_all ?kf new (pre @ ?kf @ (mid @ (coeff @ ''kr_'' @ rid) @ post))
      = pre @ new @ replace_all ?kf new (mid @ (coeff @ ''kr_'' @ rid) @ post)"
    using assms by (intro replace_all_occurrence) simp_all
  have 2: "replace_all ?kf new ((mid @ coeff) @ (''kr_'' @ rid) @ post)
      = (mid @ coeff) @ replace_all ?kf new ((''kr_'' @ rid) @ post)"
    using assms by (intro replace_all_append_skip) simp_all
  have 3: "replace_all ?kf new ((''kr_'' @ rid) @ post)
      = CHR ''k'' # replace_all ?kf new (''r_'' @ rid @ post)"
    using replace_all_skip [of ?kf "CHR ''k''" "''r_'' @ rid @ post" new] by simp
  have 4: "replace_all ?kf new (''r_'' @ rid @ post) = ''r_'' @ rid @ post"
    using assms by (intro replace_all_absent) simp_all
  from 1 2 3 4 show ?thesis by simp
qed

lemma symmetry_rate_shape:
  assumes "CHR ''k'' \<notin> set (pre @ mid @ post @ rid)"
  shows "symmetry_rate rid i n (pre @ (''kf_'' @ rid) @ mid @ (''kr_'' @ rid) @ post)
         = pre @ (str_nat (n - i) @ ''*'' @ ''kf_'' @ rid) @ mid
             @ (str_nat (i + 1) @ ''*'' @ ''kr_'' @ rid) @ post"
proof -
  have c: "CHR ''k'' \<notin> set (str_nat (i + 1) @ ''*'')"
    using str_nat_no_k [of "i + 1"] by simp
  have "replace_all (''kr_'' @ rid) (str_nat (i + 1) @ ''*'' @ ''kr_'' @ rid)
          (pre @ (''kf_'' @ rid) @ mid @ (''kr_'' @ rid) @ post)
        = pre @ (''kf_'' @ rid) @ mid @ ((str_nat (i + 1) @ ''*'') @ ''kr_'' @ rid) @ post"
    using replace_kr_in_rate [OF assms, of "str_nat (i + 1) @ ''*'' @ ''kr_'' @ rid"] by simp
  moreover have "replace_all (''kf_'' @ rid) (str_nat (n - i) @ ''*'' @ ''kf_'' @ rid)
          (pre @ (''kf_'' @ rid) @ mid @ ((str_nat (i + 1) @ ''*'') @ ''kr_'' @ rid) @ post)
        = pre @ (str_nat (n - i) @ ''*'' @ ''kf_'' @ rid) @ mid
            @ ((str_nat (i + 1) @ ''*'') @ ''kr_'' @ rid) @ post"
    using assms c by (rule replace_kf_in_rate)
  ultimately show ?thesis by (simp add: symmetry_rate_def)
qed

lemma symmetry_rates_nth:
  assumes "i < length rxn_list"
  shows "symmetry_rates rid rxn_list ! i =
     \<lparr>custom_reaction = rxn_id (sort_key rxn_id rxn_list ! i),
      custom_equation = symmetry_rate rid i (length rxn_list) (rate (sort_key rxn_id rxn_list ! i)),
      custom_parameters = [''kf_'' @ rid, ''kr_'' @ rid]\<rparr>"
  using assms by (simp add: symmetry_rates_def nth_enumerate_eq)

lemma rateconst_step_to_unify:
  assumes "rateconst_step pyfloat reactions_map reactions st p = Inr st'"
  shows "\<exists>rid direction. rateconst_re_search (fst p) = Some (rid, direction)
     \<and> to_unify st' = (case find_reaction reactions_map reactions rid of
          None \<Rightarrow> AList.update rid [r \<leftarrow> reactions. str_contains rid (rxn_id r)] (to_unify st)
        | Some rxn \<Rightarrow> to_unify st)"
proof (cases "rateconst_re_search (fst p)")
  case None
  with assms show ?thesis by (simp add: rateconst_step_def)
next
  case (Some g)
  obtain rid direction where g: "g = (rid, direction)" by (cases g)
  show ?thesis
  proof (cases "parse_value pyfloat (snd p)")
    case (Inl err)
    with assms Some g show ?thesis by (simp add: rateconst_step_def Let_def)
  next
    case (Inr x)
    with assms Some g show ?thesis
      by (auto simp: rateconst_step_def Let_def split: option.splits if_splits)
  qed
qed

lemma set_update_subset: "set (AList.update k v al) \<subseteq> insert (k, v) (set al)"
  by (induction al) auto

lemma rateconst_step_keys:
  assumes "rateconst_step pyfloat reactions_map reactions st p = Inr st'"
  shows "fst ` set (to_unify st) \<subseteq> fst ` set (to_unify st')"
proof -
  from rateconst_step_to_unify [OF assms] obtain rid direction where
    u: "to_unify st' = (case find_reaction reactions_map reactions rid of
          None \<Rightarrow> AList.update rid [r \<leftarrow> reactions. str_contains rid (rxn_id r)] (to_unify st)
        | Some rxn \<Rightarrow> to_unify st)"
    by blast
  show ?thesis unfolding u
    by (cases "find_reaction reactions_map reactions rid") (auto simp: dom_update)
qed

lemma rateconst_loop_keys:
  assumes "rateconst_loop pyfloat reactions_map reactions ps st0 = Inr st"
  shows "fst ` set (to_unify st0) \<subseteq> fst ` set (to_unify st)"
  using assms
proof (induction ps arbitrary: st0)
  case Nil
  then show ?case by simp
next
  case (Cons p ps)
  from Cons.prems obtain st1 where
    s1: "rateconst_step pyfloat reactions_map reactions st0 p = Inr st1"
    and l1: "rateconst_loop pyfloat reactions_map reactions ps st1 = Inr st"
    by (auto split: sum.splits)
  from rateconst_step_keys [OF s1] Cons.IH [OF l1] show ?case by blast
qed

lemma rateconst_loop_groups_present:
  assumes "rateconst_loop pyfloat reactions_map reactions ps st0 = Inr st"
    and "q \<in> set ps"
    and "rateconst_re_search (fst q) = Some (r, d)"
    and "find_reaction reactions_map reactions r = None"
  shows "r \<in> fst ` set (to_unify st)"
  using assms(1,2)
proof (induction ps arbitrary: st0)
  case Nil
  then show ?case by simp
next
  case (Cons p ps)
  from Cons.prems(1) obtain st1 where
    s1: "rateconst_step pyfloat reactions_map reactions st0 p = Inr st1"
    and l1: "rateconst_loop pyfloat reactions_map reactions ps st1 = Inr st"
    by (auto split: sum.splits)
  show ?case
  proof (cases "q = p")
    case True
    from rateconst_step_to_unify [OF s1] True assms(3,4)
    have "to_unify st1 = AList.update r [x \<leftarrow> reactions. str_contains r (rxn_id x)] (to_unify st0)"
      by auto
    then have "r \<in> fst ` set (to_unify st1)" by (simp add: dom_update)
    with rateconst_loop_keys [OF l1] show ?thesis by blast
  next
    case False
    with Cons.prems(2) have "q \<in> set ps" by simp
    from Cons.IH [OF l1 this] show ?thesis .
  qed
qed

lemma rateconst_loop_groups:
  assumes "rateconst_loop pyfloat reactions_map reactions ps st0 = Inr st"
    and "(r, g) \<in> set (to_unify st)"
  shows "(r, g) \<in> set (to_unify st0)
     \<or> (g = [x \<leftarrow> reactions. str_contains r (rxn_id x)]
         \<and> (\<exists>q \<in> set ps. \<exists>d. rateconst_re_search (fst q) = Some (r, d)
               \<and> find_reaction reactions_map reactions r = None))"
  using assms
proof (induction ps arbitrary: st0)
  case Nil
  then show ?case by simp
next
  case (Cons p ps)
  from Cons.prems(1) obtain st1 where
    s1: "rateconst_step pyfloat reactions_map reactions st0 p = Inr st1"
    and l1: "rateconst_loop pyfloat reactions_map reactions ps st1 = Inr st"
    by (auto split: sum.splits)
  from Cons.IH [OF l1 Cons.prems(2)] consider
    (old) "(r, g) \<in> set (to_unify st1)"
    | (new) "g = [x \<leftarrow> reactions. str_contains r (rxn_id x)]"
        "\<exists>q \<in> set ps. \<exists>d. rateconst_re_search (fst q) = Some (r, d)
               \<and> find_reaction reactions_map reactions r = None"
    by blast
  then show ?case
  proof cases
    case old
    from rateconst_step_to_unify [OF s1] obtain rid direction where
      m: "rateconst_re_search (fst p) = Some (rid, direction)"
      and u: "to_unify st1 = (case find_reaction reactions_map reactions rid of
          None \<Rightarrow> AList.update rid [x \<leftarrow> reactions. str_contains rid (rxn_id x)] (to_unify st0)
        | Some rxn \<Rightarrow> to_unify st0)"
      by blast
    show ?thesis
    proof (cases "find_reaction reactions_map reactions rid")
      case None
      with u old have "(r, g) \<in> set (AList.update rid
          [x \<leftarrow> reactions. str_contains rid (rxn_id x)] (to_unify st0))"
        by simp
      from subsetD [OF set_update_subset this]
      have "(r, g) = (rid, [x \<leftarrow> reactions. str_contains rid (rxn_id x)])
          \<or> (r, g) \<in> set (to_unify st0)"
        by simp
      then show ?thesis
      proof
        assume "(r, g) = (rid, [x \<leftarrow> reactions. str_contains rid (rxn_id x)])"
        with m None show ?thesis by auto
      next
        assume "(r, g) \<in> set (to_unify st0)"
        then show ?thesis by simp
      qed
    next
      case (Some rxn)
      with u old show ?thesis by simp
    qed
  next
    case new
    then show ?thesis by auto
  qed
qed

lemma find_unique:
  assumes "x \<in> set l" and "P x" and "\<forall>y \<in> set l. P y \<longrightarrow> y = x"
  shows "find P l = Some x"
  using assms(1,3)
proof (induction l)
  case Nil
  then show ?case by simp
next
  case (Cons a l)
  show ?case
  proof (cases "P a")
    case True
    with Cons.prems(2) have "a = x" by simp
    with True show ?thesis by simp
  next
    case False
    with assms(2) have "x \<noteq> a" by blast
    with Cons.prems(1) have "x \<in> set l" by simp
    moreover from Cons.prems(2) have "\<forall>y \<in> set l. P y \<longrightarrow> y = x" by simp
    ultimately have "find P l = Some x" by (rule Cons.IH)
    with False show ?thesis by simp
  qed
qed

lemma symmetry_rates_ids:
  "map custom_reaction (symmetry_rates rid rxn_list) = map rxn_id (sort_key rxn_id rxn_list)"
  by (rule nth_equalityI) (simp_all add: symmetry_rates_def nth_enumerate_eq)


text \<open>
  C7: when the rate constant loader completes and a label of the selected pairs names a
  family \<open>rid\<close> for which no reaction is found, the loader calls
  \<^verbatim>\<open>add_custom_rate\<close> once for every reaction whose identifier contains \<open>rid\<close>,
  the calls of the family next to each other and in ascending order of the reaction
  identifiers. The call for the member at position \<open>i\<close> of \<open>n\<close> carries the member's rate
  text with \<open>i + 1\<close> put as a factor before the reverse constant of the family and \<open>n - i\<close>
  before its forward constant, and names the two constants as the custom parameters. For a
  rate text in which the forward constant is followed by the reverse constant and no other
  \<open>k\<close> occurs, the result is written out. Where the reactions have distinct identifiers and
  no other family of the labels occurs in the member's identifier, that call is the only
  one for the member, and its rate law is the one the module holds.
\<close>

theorem symmetry_coefficients:
  assumes "rateconsts_from_txt pyfloat reactions_map reactions kcluster label_lines cluster_lines
           = Inr res"
    and "rateconst_pairs kcluster label_lines cluster_lines = Inr pairs"
    and "p \<in> set pairs"
    and "rateconst_re_search (fst p) = Some (rid, direction)"
    and "find_reaction reactions_map reactions rid = None"
    and "rxn_list = [r \<leftarrow> reactions. str_contains rid (rxn_id r)]"
    and "i < length rxn_list"
    and "rxn = sort_key rxn_id rxn_list ! i"
  shows "\<exists>before after.
       custom_rates res = before @ symmetry_rates rid rxn_list @ after
     \<and> length (symmetry_rates rid rxn_list) = length rxn_list
     \<and> map custom_reaction (symmetry_rates rid rxn_list) = map rxn_id (sort_key rxn_id rxn_list)
     \<and> sorted (map rxn_id (sort_key rxn_id rxn_list))
     \<and> mset (sort_key rxn_id rxn_list) = mset rxn_list
     \<and> custom_rates res ! (length before + i)
         = \<lparr>custom_reaction = rxn_id rxn,
            custom_equation =
              replace_all (''kf_'' @ rid) (str_nat (length rxn_list - i) @ ''*'' @ ''kf_'' @ rid)
                (replace_all (''kr_'' @ rid) (str_nat (i + 1) @ ''*'' @ ''kr_'' @ rid) (rate rxn)),
            custom_parameters = [''kf_'' @ rid, ''kr_'' @ rid]\<rparr>
     \<and> (CHR ''k'' \<notin> set (pre @ mid @ post @ rid)
          \<and> rate rxn = pre @ (''kf_'' @ rid) @ mid @ (''kr_'' @ rid) @ post \<longrightarrow>
        custom_equation (custom_rates res ! (length before + i))
          = pre @ (str_nat (length rxn_list - i) @ ''*'' @ ''kf_'' @ rid) @ mid
              @ (str_nat (i + 1) @ ''*'' @ ''kr_'' @ rid) @ post)
     \<and> (distinct (map rxn_id reactions)
          \<and> (\<forall>q \<in> set pairs. \<forall>rid' direction'.
                rateconst_re_search (fst q) = Some (rid', direction')
                \<and> find_reaction reactions_map reactions rid' = None
                \<and> str_contains rid' (rxn_id rxn) \<longrightarrow> rid' = rid) \<longrightarrow>
        installed_custom_rate (custom_rates res) (rxn_id rxn)
          = Some (custom_rates res ! (length before + i)))"
proof -
  let ?f = "\<lambda>(rid, rxn_list). symmetry_rates rid rxn_list"
  let ?seg = "symmetry_rates rid rxn_list"
  let ?st0 = "\<lparr>kf_map = [], kr_map = [], to_unify = [], rateconst_values = []\<rparr>"
  from assms(1,2) obtain st where
    l: "rateconst_loop pyfloat reactions_map reactions pairs ?st0 = Inr st"
    and r: "custom_rates res = concat (map ?f (to_unify st))"
    by (auto simp: rateconsts_from_txt_def split: sum.splits)
  have grp: "g = [x \<leftarrow> reactions. str_contains r' (rxn_id x)]
      \<and> (\<exists>q \<in> set pairs. \<exists>d. rateconst_re_search (fst q) = Some (r', d)
               \<and> find_reaction reactions_map reactions r' = None)"
    if "(r', g) \<in> set (to_unify st)" for r' g
    using rateconst_loop_groups [OF l that] by simp
  from rateconst_loop_groups_present [OF l assms(3,4,5)]
  obtain g where "(rid, g) \<in> set (to_unify st)" by auto
  with grp [of rid g] assms(6) have mem: "(rid, rxn_list) \<in> set (to_unify st)" by simp
  then obtain xs ys where split: "to_unify st = xs @ (rid, rxn_list) # ys"
    by (auto dest: split_list)
  define before where "before = concat (map ?f xs)"
  define after where "after = concat (map ?f ys)"
  have cat: "custom_rates res = before @ ?seg @ after"
    unfolding r split before_def after_def by simp
  have len: "length ?seg = length rxn_list"
    by (simp add: symmetry_rates_def)
  have srt: "sorted (map rxn_id (sort_key rxn_id rxn_list))"
    by (rule sorted_sort_key)
  have ms: "mset (sort_key rxn_id rxn_list) = mset rxn_list" by simp
  have at: "custom_rates res ! (length before + i) = ?seg ! i"
    unfolding cat using assms(7) len by (simp add: nth_append)
  have nth: "?seg ! i = \<lparr>custom_reaction = rxn_id rxn,
            custom_equation =
              replace_all (''kf_'' @ rid) (str_nat (length rxn_list - i) @ ''*'' @ ''kf_'' @ rid)
                (replace_all (''kr_'' @ rid) (str_nat (i + 1) @ ''*'' @ ''kr_'' @ rid) (rate rxn)),
            custom_parameters = [''kf_'' @ rid, ''kr_'' @ rid]\<rparr>"
    using symmetry_rates_nth [OF assms(7), of rid] assms(8) by (simp add: symmetry_rate_def)
  have shape: "custom_equation (custom_rates res ! (length before + i))
          = pre @ (str_nat (length rxn_list - i) @ ''*'' @ ''kf_'' @ rid) @ mid
              @ (str_nat (i + 1) @ ''*'' @ ''kr_'' @ rid) @ post"
    if "CHR ''k'' \<notin> set (pre @ mid @ post @ rid)
          \<and> rate rxn = pre @ (''kf_'' @ rid) @ mid @ (''kr_'' @ rid) @ post"
    unfolding at using symmetry_rates_nth [OF assms(7), of rid] assms(8) that
      symmetry_rate_shape [of pre mid post rid i "length rxn_list"]
    by simp
  have inst: "installed_custom_rate (custom_rates res) (rxn_id rxn)
          = Some (custom_rates res ! (length before + i))"
    if h: "distinct (map rxn_id reactions)
          \<and> (\<forall>q \<in> set pairs. \<forall>rid' direction'.
                rateconst_re_search (fst q) = Some (rid', direction')
                \<and> find_reaction reactions_map reactions rid' = None
                \<and> str_contains rid' (rxn_id rxn) \<longrightarrow> rid' = rid)"
  proof -
    from h have "distinct (map rxn_id rxn_list)"
      unfolding assms(6) by (intro distinct_map_filter) simp
    moreover have "mset (map rxn_id (sort_key rxn_id rxn_list)) = mset (map rxn_id rxn_list)"
      by simp
    ultimately have dist: "distinct (map rxn_id (sort_key rxn_id rxn_list))"
      using mset_eq_imp_distinct_iff [of "map rxn_id (sort_key rxn_id rxn_list)" "map rxn_id rxn_list"]
      by blast
    have in_seg: "?seg ! i \<in> set (custom_rates res)"
      unfolding cat using assms(7) len by simp
    have P: "custom_reaction (?seg ! i) = rxn_id rxn" unfolding nth by simp
    have uniq: "c = ?seg ! i"
      if c: "c \<in> set (custom_rates res)" and cr: "custom_reaction c = rxn_id rxn" for c
    proof -
      from c r obtain r' g where rg: "(r', g) \<in> set (to_unify st)"
        and cg: "c \<in> set (symmetry_rates r' g)"
        by auto
      from grp [OF rg] obtain q d where g: "g = [x \<leftarrow> reactions. str_contains r' (rxn_id x)]"
        and q: "q \<in> set pairs" "rateconst_re_search (fst q) = Some (r', d)"
          "find_reaction reactions_map reactions r' = None"
        by blast
      from cg have "custom_reaction c \<in> set (map custom_reaction (symmetry_rates r' g))"
        by simp
      then have "custom_reaction c \<in> rxn_id ` set g"
        unfolding symmetry_rates_ids by simp
      with cr g have "str_contains r' (rxn_id rxn)" by auto
      with h q have "r' = rid" by blast
      with g assms(6) have "g = rxn_list" by simp
      with cg \<open>r' = rid\<close> have "c \<in> set ?seg" by simp
      then obtain j where j: "j < length ?seg" "c = ?seg ! j"
        by (auto simp: in_set_conv_nth)
      with len have jl: "j < length rxn_list" by simp
      from j cr symmetry_rates_nth [OF jl, of rid]
      have "rxn_id (sort_key rxn_id rxn_list ! j) = rxn_id rxn" by simp
      with assms(7,8) jl
      have "map rxn_id (sort_key rxn_id rxn_list) ! j = map rxn_id (sort_key rxn_id rxn_list) ! i"
        by simp
      moreover from jl assms(7) have "j < length (map rxn_id (sort_key rxn_id rxn_list))"
        "i < length (map rxn_id (sort_key rxn_id rxn_list))"
        by simp_all
      ultimately have "j = i" using nth_eq_iff_index_eq [OF dist] by blast
      with j show ?thesis by simp
    qed
    have "find (\<lambda>c. custom_reaction c = rxn_id rxn) (rev (custom_rates res)) = Some (?seg ! i)"
    proof (rule find_unique)
      from in_seg show "?seg ! i \<in> set (rev (custom_rates res))" by simp
      from P show "custom_reaction (?seg ! i) = rxn_id rxn" .
      from uniq show "\<forall>y \<in> set (rev (custom_rates res)).
          custom_reaction y = rxn_id rxn \<longrightarrow> y = ?seg ! i"
        by simp
    qed
    then show ?thesis unfolding at by (simp add: installed_custom_rate_def)
  qed
  note ids = symmetry_rates_ids [of rid rxn_list]
  note rec = at [unfolded nth]
  show ?thesis
    apply (rule exI [of _ before])
    apply (rule exI [of _ after])
    apply (intro conjI impI)
           apply (rule cat)
          apply (rule len)
         apply (rule ids)
        apply (rule srt)
       apply (rule ms)
      apply (rule rec)
     apply (erule shape)
    apply (erule inst)
    done
qed

theorem symmetry_coefficients_witness:
  "rateconsts_from_txt float_literal [(''X1'', ''X1''), (''X2'', ''X2''), (''X3'', ''X3'')]
     [\<lparr>rxn_id = ''X3'', formula = [], kf_str = ''kf_X3'', kr_str = ''kr_X3'', rate = ''kf_X*A - kr_X*B''\<rparr>,
      \<lparr>rxn_id = ''X1'', formula = [], kf_str = ''kf_X1'', kr_str = ''kr_X1'', rate = ''kf_X*A - kr_X*B''\<rparr>,
      \<lparr>rxn_id = ''X2'', formula = [], kf_str = ''kf_X2'', kr_str = ''kr_X2'', rate = ''kf_X*A - kr_X*B''\<rparr>]
     1 [''k_X_fwd'', ''k_X_rev''] [''{1, 2}'']
   = Inr \<lparr>result_kf_map = [(''k_X_fwd'', ''kf_X'')], result_kr_map = [(''k_X_rev'', ''kr_X'')],
       custom_rates =
         [\<lparr>custom_reaction = ''X1'', custom_equation = ''3*kf_X*A - 1*kr_X*B'',
            custom_parameters = [''kf_X'', ''kr_X'']\<rparr>,
          \<lparr>custom_reaction = ''X2'', custom_equation = ''2*kf_X*A - 2*kr_X*B'',
            custom_parameters = [''kf_X'', ''kr_X'']\<rparr>,
          \<lparr>custom_reaction = ''X3'', custom_equation = ''1*kf_X*A - 3*kr_X*B'',
            custom_parameters = [''kf_X'', ''kr_X'']\<rparr>],
       installed = [(''kf_X'', 3600), (''kr_X'', 7200)]\<rparr>
   \<and> rateconst_re_search ''k_X_rev'' = Some (''X'', ''rev'')
   \<and> find_reaction [(''X1'', ''X1''), (''X2'', ''X2''), (''X3'', ''X3'')]
     [\<lparr>rxn_id = ''X3'', formula = [], kf_str = ''kf_X3'', kr_str = ''kr_X3'', rate = ''kf_X*A - kr_X*B''\<rparr>,
      \<lparr>rxn_id = ''X1'', formula = [], kf_str = ''kf_X1'', kr_str = ''kr_X1'', rate = ''kf_X*A - kr_X*B''\<rparr>,
      \<lparr>rxn_id = ''X2'', formula = [], kf_str = ''kf_X2'', kr_str = ''kr_X2'', rate = ''kf_X*A - kr_X*B''\<rparr>]
     ''X'' = None
   \<and> installed_custom_rate
        [\<lparr>custom_reaction = ''X1'', custom_equation = ''3*kf_X*A - 1*kr_X*B'',
            custom_parameters = [''kf_X'', ''kr_X'']\<rparr>,
          \<lparr>custom_reaction = ''X2'', custom_equation = ''2*kf_X*A - 2*kr_X*B'',
            custom_parameters = [''kf_X'', ''kr_X'']\<rparr>,
          \<lparr>custom_reaction = ''X3'', custom_equation = ''1*kf_X*A - 3*kr_X*B'',
            custom_parameters = [''kf_X'', ''kr_X'']\<rparr>] ''X2''
      = Some \<lparr>custom_reaction = ''X2'', custom_equation = ''2*kf_X*A - 2*kr_X*B'',
            custom_parameters = [''kf_X'', ''kr_X'']\<rparr>"
proof -
  let ?m = "[(''X1'', ''X1''), (''X2'', ''X2''), (''X3'', ''X3'')]"
  let ?x1 = "\<lparr>rxn_id = ''X1'', formula = [], kf_str = ''kf_X1'', kr_str = ''kr_X1'', rate = ''kf_X*A - kr_X*B''\<rparr>"
  let ?x2 = "\<lparr>rxn_id = ''X2'', formula = [], kf_str = ''kf_X2'', kr_str = ''kr_X2'', rate = ''kf_X*A - kr_X*B''\<rparr>"
  let ?x3 = "\<lparr>rxn_id = ''X3'', formula = [], kf_str = ''kf_X3'', kr_str = ''kr_X3'', rate = ''kf_X*A - kr_X*B''\<rparr>"
  let ?rs = "[?x3, ?x1, ?x2]"
  let ?calls = "[\<lparr>custom_reaction = ''X1'', custom_equation = ''3*kf_X*A - 1*kr_X*B'',
            custom_parameters = [''kf_X'', ''kr_X'']\<rparr>,
          \<lparr>custom_reaction = ''X2'', custom_equation = ''2*kf_X*A - 2*kr_X*B'',
            custom_parameters = [''kf_X'', ''kr_X'']\<rparr>,
          \<lparr>custom_reaction = ''X3'', custom_equation = ''1*kf_X*A - 3*kr_X*B'',
            custom_parameters = [''kf_X'', ''kr_X'']\<rparr>]"
  let ?res = "\<lparr>result_kf_map = [(''k_X_fwd'', ''kf_X'')], result_kr_map = [(''k_X_rev'', ''kr_X'')],
       custom_rates = ?calls, installed = [(''kf_X'', 3600), (''kr_X'', 7200)]\<rparr>"
  let ?pairs = "[(''k_X_fwd'', ''1''), (''k_X_rev'', ''2'')]"
  have run: "rateconsts_from_txt float_literal ?m ?rs 1 [''k_X_fwd'', ''k_X_rev''] [''{1, 2}'']
      = Inr ?res"
    by code_simp
  have pairs: "rateconst_pairs 1 [''k_X_fwd'', ''k_X_rev''] [''{1, 2}''] = Inr ?pairs"
    by code_simp
  have mem: "(''k_X_rev'', ''2'') \<in> set ?pairs" by simp
  have s1: "rateconst_re_search ''k_X_fwd'' = Some (''X'', ''fwd'')" by code_simp
  have s2: "rateconst_re_search ''k_X_rev'' = Some (''X'', ''rev'')" by code_simp
  have s2': "rateconst_re_search (fst (''k_X_rev'', ''2'')) = Some (''X'', ''rev'')"
    using s2 by simp
  have nf: "find_reaction ?m ?rs ''X'' = None" by code_simp
  have grp: "?rs = [r \<leftarrow> ?rs. str_contains ''X'' (rxn_id r)]" by code_simp
  have i: "(1::nat) < length ?rs" by simp
  have rxn: "?x2 = sort_key rxn_id ?rs ! 1" by code_simp
  have dist: "distinct (map rxn_id ?rs)" by simp
  have only: "\<forall>q \<in> set ?pairs. \<forall>rid' direction'.
                rateconst_re_search (fst q) = Some (rid', direction')
                \<and> find_reaction ?m ?rs rid' = None
                \<and> str_contains rid' (rxn_id ?x2) \<longrightarrow> rid' = ''X''"
  proof (intro ballI allI impI)
    fix q rid' direction'
    assume q: "q \<in> set ?pairs"
      and h: "rateconst_re_search (fst q) = Some (rid', direction')
                \<and> find_reaction ?m ?rs rid' = None
                \<and> str_contains rid' (rxn_id ?x2)"
    from q have "fst q = ''k_X_fwd'' \<or> fst q = ''k_X_rev''" by auto
    then show "rid' = ''X''"
    proof
      assume "fst q = ''k_X_fwd''"
      with h have "rateconst_re_search ''k_X_fwd'' = Some (rid', direction')"
        by (simp del: rateconst_re_search.simps)
      with s1 show ?thesis by (simp del: rateconst_re_search.simps)
    next
      assume "fst q = ''k_X_rev''"
      with h have "rateconst_re_search ''k_X_rev'' = Some (rid', direction')"
        by (simp del: rateconst_re_search.simps)
      with s2 show ?thesis by (simp del: rateconst_re_search.simps)
    qed
  qed
  have eq: "replace_all (''kf_'' @ ''X'') (str_nat (length ?rs - 1) @ ''*'' @ ''kf_'' @ ''X'')
                (replace_all (''kr_'' @ ''X'') (str_nat (1 + 1) @ ''*'' @ ''kr_'' @ ''X'') (rate ?x2))
            = ''2*kf_X*A - 2*kr_X*B''"
    by code_simp
  from symmetry_coefficients [OF run pairs mem s2' nf grp i rxn,
      where pre = "[]" and mid = "''*A - ''" and post = "''*B''"]
  have "installed_custom_rate ?calls ''X2''
      = Some \<lparr>custom_reaction = ''X2'', custom_equation = ''2*kf_X*A - 2*kr_X*B'',
            custom_parameters = [''kf_X'', ''kr_X'']\<rparr>"
  proof (elim exE conjE)
    fix before after :: "custom_rate list"
    assume rec: "custom_rates ?res ! (length before + 1)
         = \<lparr>custom_reaction = rxn_id ?x2,
            custom_equation =
              replace_all (''kf_'' @ ''X'') (str_nat (length ?rs - 1) @ ''*'' @ ''kf_'' @ ''X'')
                (replace_all (''kr_'' @ ''X'') (str_nat (1 + 1) @ ''*'' @ ''kr_'' @ ''X'') (rate ?x2)),
            custom_parameters = [''kf_'' @ ''X'', ''kr_'' @ ''X'']\<rparr>"
      and inst: "distinct (map rxn_id ?rs)
          \<and> (\<forall>q \<in> set ?pairs. \<forall>rid' direction'.
                rateconst_re_search (fst q) = Some (rid', direction')
                \<and> find_reaction ?m ?rs rid' = None
                \<and> str_contains rid' (rxn_id ?x2) \<longrightarrow> rid' = ''X'') \<longrightarrow>
        installed_custom_rate (custom_rates ?res) (rxn_id ?x2)
          = Some (custom_rates ?res ! (length before + 1))"
    from dist only have "distinct (map rxn_id ?rs)
          \<and> (\<forall>q \<in> set ?pairs. \<forall>rid' direction'.
                rateconst_re_search (fst q) = Some (rid', direction')
                \<and> find_reaction ?m ?rs rid' = None
                \<and> str_contains rid' (rxn_id ?x2) \<longrightarrow> rid' = ''X'')"
      by (rule conjI)
    with inst have "installed_custom_rate (custom_rates ?res) (rxn_id ?x2)
          = Some (custom_rates ?res ! (length before + 1))"
      by (rule mp)
    then show ?thesis unfolding rec eq by simp
  qed
  with run s2 nf show ?thesis by (intro conjI)
qed

subsection \<open>Installed rate constants\<close>

lemma rateconst_step_values:
  assumes "rateconst_step pyfloat reactions_map reactions st p = Inr st'"
  shows "\<exists>name x. new_rateconst_of reactions_map reactions (fst p) = Some name
     \<and> parse_value pyfloat (snd p) = Inr x
     \<and> rateconst_values st' = AList.update name (x * 3600) (rateconst_values st)"
proof (cases "rateconst_re_search (fst p)")
  case None
  with assms show ?thesis by (simp add: rateconst_step_def)
next
  case (Some g)
  obtain rid direction where g: "g = (rid, direction)" by (cases g)
  from Some g have "\<exists>name. new_rateconst_of reactions_map reactions (fst p) = Some name"
    by (cases "find_reaction reactions_map reactions rid") (simp_all add: new_rateconst_of_def)
  then obtain name where name: "new_rateconst_of reactions_map reactions (fst p) = Some name"
    by blast
  show ?thesis
  proof (cases "parse_value pyfloat (snd p)")
    case (Inl err)
    with assms Some g show ?thesis by (simp add: rateconst_step_def Let_def)
  next
    case (Inr x)
    with assms Some g name have "rateconst_values st' = AList.update name (x * 3600) (rateconst_values st)"
      by (auto simp: rateconst_step_def Let_def split: option.splits if_splits)
    with name Inr show ?thesis by blast
  qed
qed

lemma rateconst_loop_keeps:
  assumes "rateconst_loop pyfloat reactions_map reactions ps st0 = Inr st"
    and "\<forall>p \<in> set ps. new_rateconst_of reactions_map reactions (fst p) \<noteq> Some name"
  shows "map_of (rateconst_values st) name = map_of (rateconst_values st0) name"
  using assms
proof (induction ps arbitrary: st0)
  case Nil
  then show ?case by simp
next
  case (Cons p ps)
  from Cons.prems(1) obtain st1 where
    s1: "rateconst_step pyfloat reactions_map reactions st0 p = Inr st1"
    and l1: "rateconst_loop pyfloat reactions_map reactions ps st1 = Inr st"
    by (auto split: sum.splits)
  from rateconst_step_values [OF s1] obtain n x where
    n: "new_rateconst_of reactions_map reactions (fst p) = Some n"
    and v: "rateconst_values st1 = AList.update n (x * 3600) (rateconst_values st0)"
    by blast
  from Cons.prems(2) n have "n \<noteq> name" by auto
  with v have "map_of (rateconst_values st1) name = map_of (rateconst_values st0) name"
    by (simp add: update_conv')
  moreover from Cons.IH [OF l1] Cons.prems(2)
  have "map_of (rateconst_values st) name = map_of (rateconst_values st1) name" by simp
  ultimately show ?case by simp
qed

lemma rateconst_loop_values:
  assumes "rateconst_loop pyfloat reactions_map reactions ps st0 = Inr st"
    and "j < length ps"
  shows "\<exists>name x. new_rateconst_of reactions_map reactions (fst (ps ! j)) = Some name
     \<and> parse_value pyfloat (snd (ps ! j)) = Inr x
     \<and> ((\<forall>k. j < k \<and> k < length ps \<longrightarrow>
            new_rateconst_of reactions_map reactions (fst (ps ! k)) \<noteq> Some name)
          \<longrightarrow> map_of (rateconst_values st) name = Some (x * 3600))"
  using assms
proof (induction ps arbitrary: st0 j)
  case Nil
  then show ?case by simp
next
  case (Cons p ps)
  from Cons.prems(1) obtain st1 where
    s1: "rateconst_step pyfloat reactions_map reactions st0 p = Inr st1"
    and l1: "rateconst_loop pyfloat reactions_map reactions ps st1 = Inr st"
    by (auto split: sum.splits)
  show ?case
  proof (cases j)
    case 0
    from rateconst_step_values [OF s1] obtain n x where
      n: "new_rateconst_of reactions_map reactions (fst p) = Some n"
      and x: "parse_value pyfloat (snd p) = Inr x"
      and v: "rateconst_values st1 = AList.update n (x * 3600) (rateconst_values st0)"
      by blast
    have "map_of (rateconst_values st) n = Some (x * 3600)"
      if later: "\<forall>k. j < k \<and> k < length (p # ps) \<longrightarrow>
            new_rateconst_of reactions_map reactions (fst ((p # ps) ! k)) \<noteq> Some n"
    proof -
      have "\<forall>q \<in> set ps. new_rateconst_of reactions_map reactions (fst q) \<noteq> Some n"
      proof
        fix q assume "q \<in> set ps"
        then obtain m where m: "m < length ps" "ps ! m = q" by (auto simp: in_set_conv_nth)
        with later 0 have "new_rateconst_of reactions_map reactions (fst ((p # ps) ! Suc m)) \<noteq> Some n"
          by (metis Suc_less_eq length_Cons zero_less_Suc)
        with m show "new_rateconst_of reactions_map reactions (fst q) \<noteq> Some n" by simp
      qed
      with rateconst_loop_keeps [OF l1]
      have "map_of (rateconst_values st) n = map_of (rateconst_values st1) n" by blast
      with v show ?thesis by (simp add: update_conv')
    qed
    with n x 0 show ?thesis by auto
  next
    case (Suc j')
    with Cons.prems(2) have j': "j' < length ps" by simp
    from Cons.IH [OF l1 j'] obtain n x where
      n: "new_rateconst_of reactions_map reactions (fst (ps ! j')) = Some n"
      and x: "parse_value pyfloat (snd (ps ! j')) = Inr x"
      and v: "(\<forall>k. j' < k \<and> k < length ps \<longrightarrow>
            new_rateconst_of reactions_map reactions (fst (ps ! k)) \<noteq> Some n)
          \<longrightarrow> map_of (rateconst_values st) n = Some (x * 3600)"
      by blast
    have "map_of (rateconst_values st) n = Some (x * 3600)"
      if later: "\<forall>k. j < k \<and> k < length (p # ps) \<longrightarrow>
            new_rateconst_of reactions_map reactions (fst ((p # ps) ! k)) \<noteq> Some n"
    proof -
      have "\<forall>k. j' < k \<and> k < length ps \<longrightarrow>
            new_rateconst_of reactions_map reactions (fst (ps ! k)) \<noteq> Some n"
      proof (intro allI impI)
        fix k assume "j' < k \<and> k < length ps"
        with later Suc have "new_rateconst_of reactions_map reactions (fst ((p # ps) ! Suc k)) \<noteq> Some n"
          by (metis Suc_less_eq length_Cons)
        then show "new_rateconst_of reactions_map reactions (fst (ps ! k)) \<noteq> Some n" by simp
      qed
      with v show ?thesis by blast
    qed
    with n x Suc show ?thesis by auto
  qed
qed

lemma parse_value_cases:
  "parse_value pyfloat v = Inr x \<Longrightarrow>
   pyfloat v = Some x \<or> (pyfloat v = None \<and> pyfloat (replace_all ''*^'' ''e'' v) = Some x)"
  by (auto simp: parse_value_def split: option.splits)

text \<open>
  C8: when the rate constant loader completes, every label/value pair names a constant and
  has a parsed value \<open>x\<close>, which is what \<^verbatim>\<open>float()\<close> gives for the raw text or, when
  \<^verbatim>\<open>float()\<close> rejects the raw text, what it gives for the text with \<^verbatim>\<open>*^\<close> rewritten
  to \<^verbatim>\<open>e\<close>; and the value handed to the module's parameters for that constant is
  \<open>x * 3600\<close>. Where a later pair names the same constant again, the dictionary keeps the
  later pair's value, so the statement is about the last pair of every constant.
\<close>

theorem installed_value_times_3600:
  assumes "rateconsts_from_txt pyfloat reactions_map reactions kcluster label_lines cluster_lines
           = Inr res"
  shows "\<exists>pairs. rateconst_pairs kcluster label_lines cluster_lines = Inr pairs
    \<and> (\<forall>j < length pairs. \<exists>name x.
          new_rateconst_of reactions_map reactions (fst (pairs ! j)) = Some name
        \<and> parse_value pyfloat (snd (pairs ! j)) = Inr x
        \<and> (pyfloat (snd (pairs ! j)) = Some x
           \<or> (pyfloat (snd (pairs ! j)) = None
               \<and> pyfloat (replace_all ''*^'' ''e'' (snd (pairs ! j))) = Some x))
        \<and> ((\<forall>k. j < k \<and> k < length pairs \<longrightarrow>
               new_rateconst_of reactions_map reactions (fst (pairs ! k)) \<noteq> Some name)
            \<longrightarrow> map_of (installed res) name = Some (x * 3600)))"
proof -
  from assms obtain pairs st where
    p: "rateconst_pairs kcluster label_lines cluster_lines = Inr pairs"
    and l: "rateconst_loop pyfloat reactions_map reactions pairs
              \<lparr>kf_map = [], kr_map = [], to_unify = [], rateconst_values = []\<rparr> = Inr st"
    and r: "installed res = rateconst_values st"
    by (auto simp: rateconsts_from_txt_def split: sum.splits)
  have "\<exists>name x.
          new_rateconst_of reactions_map reactions (fst (pairs ! j)) = Some name
        \<and> parse_value pyfloat (snd (pairs ! j)) = Inr x
        \<and> (pyfloat (snd (pairs ! j)) = Some x
           \<or> (pyfloat (snd (pairs ! j)) = None
               \<and> pyfloat (replace_all ''*^'' ''e'' (snd (pairs ! j))) = Some x))
        \<and> ((\<forall>k. j < k \<and> k < length pairs \<longrightarrow>
               new_rateconst_of reactions_map reactions (fst (pairs ! k)) \<noteq> Some name)
            \<longrightarrow> map_of (installed res) name = Some (x * 3600))"
    if "j < length pairs" for j
  proof -
    from rateconst_loop_values [OF l that] obtain name x where
      a: "new_rateconst_of reactions_map reactions (fst (pairs ! j)) = Some name"
      and b: "parse_value pyfloat (snd (pairs ! j)) = Inr x"
      and c: "(\<forall>k. j < k \<and> k < length pairs \<longrightarrow>
               new_rateconst_of reactions_map reactions (fst (pairs ! k)) \<noteq> Some name)
            \<longrightarrow> map_of (rateconst_values st) name = Some (x * 3600)"
      by blast
    from b have "pyfloat (snd (pairs ! j)) = Some x
           \<or> (pyfloat (snd (pairs ! j)) = None
               \<and> pyfloat (replace_all ''*^'' ''e'' (snd (pairs ! j))) = Some x)"
      by (rule parse_value_cases)
    with a b c r show ?thesis by auto
  qed
  with p show ?thesis by blast
qed


theorem installed_value_times_3600_witness:
  "rateconsts_from_txt float_literal [(''R1'', ''R1'')]
     [\<lparr>rxn_id = ''R1'', formula = ''a <=> b'', kf_str = ''kf_R1'', kr_str = ''kr_R1'', rate = []\<rparr>]
     1 [''k_R1_fwd'', ''k_R1_rev''] [''{2.5, 1.2*^-3}'']
   = Inr \<lparr>result_kf_map = [(''k_R1_fwd'', ''kf_R1'')], result_kr_map = [(''k_R1_rev'', ''kr_R1'')],
          custom_rates = [], installed = [(''kf_R1'', 9000), (''kr_R1'', 432 / 100)]\<rparr>
   \<and> float_literal ''1.2*^-3'' = None
   \<and> parse_value float_literal ''1.2*^-3'' = Inr (12 / 10000)
   \<and> map_of (installed \<lparr>result_kf_map = [(''k_R1_fwd'', ''kf_R1'')],
          result_kr_map = [(''k_R1_rev'', ''kr_R1'')],
          custom_rates = [], installed = [(''kf_R1'', 9000), (''kr_R1'', 432 / 100)]\<rparr>) ''kr_R1''
       = Some (12 / 10000 * 3600)"
proof -
  let ?rs = "[\<lparr>rxn_id = ''R1'', formula = ''a <=> b'', kf_str = ''kf_R1'', kr_str = ''kr_R1'', rate = []\<rparr>]"
  let ?res = "\<lparr>result_kf_map = [(''k_R1_fwd'', ''kf_R1'')], result_kr_map = [(''k_R1_rev'', ''kr_R1'')],
          custom_rates = [], installed = [(''kf_R1'', 9000), (''kr_R1'', 432 / 100)]\<rparr>"
  have run: "rateconsts_from_txt float_literal [(''R1'', ''R1'')] ?rs
     1 [''k_R1_fwd'', ''k_R1_rev''] [''{2.5, 1.2*^-3}''] = Inr ?res"
    by code_simp
  have none: "float_literal ''1.2*^-3'' = None" by code_simp
  have parsed: "parse_value float_literal ''1.2*^-3'' = Inr (12 / 10000)" by code_simp
  have pairs: "rateconst_pairs 1 [''k_R1_fwd'', ''k_R1_rev''] [''{2.5, 1.2*^-3}'']
      = Inr [(''k_R1_fwd'', ''2.5''), (''k_R1_rev'', ''1.2*^-3'')]"
    by code_simp
  have name: "new_rateconst_of [(''R1'', ''R1'')] ?rs ''k_R1_rev'' = Some ''kr_R1''"
    by code_simp
  from installed_value_times_3600 [OF run] obtain ps where
    ps: "rateconst_pairs 1 [''k_R1_fwd'', ''k_R1_rev''] [''{2.5, 1.2*^-3}''] = Inr ps"
    and every: "\<forall>j < length ps. \<exists>name x.
          new_rateconst_of [(''R1'', ''R1'')] ?rs (fst (ps ! j)) = Some name
        \<and> parse_value float_literal (snd (ps ! j)) = Inr x
        \<and> (float_literal (snd (ps ! j)) = Some x
           \<or> (float_literal (snd (ps ! j)) = None
               \<and> float_literal (replace_all ''*^'' ''e'' (snd (ps ! j))) = Some x))
        \<and> ((\<forall>k. j < k \<and> k < length ps \<longrightarrow>
               new_rateconst_of [(''R1'', ''R1'')] ?rs (fst (ps ! k)) \<noteq> Some name)
            \<longrightarrow> map_of (installed ?res) name = Some (x * 3600))"
    by blast
  from ps pairs have eq: "ps = [(''k_R1_fwd'', ''2.5''), (''k_R1_rev'', ''1.2*^-3'')]"
    by simp
  then have len: "length ps = 2" and at: "ps ! 1 = (''k_R1_rev'', ''1.2*^-3'')"
    by simp_all
  from len have "1 < length ps" by simp
  with every obtain nm x where
    a: "new_rateconst_of [(''R1'', ''R1'')] ?rs (fst (ps ! 1)) = Some nm"
    and b: "parse_value float_literal (snd (ps ! 1)) = Inr x"
    and c: "(\<forall>k. 1 < k \<and> k < length ps \<longrightarrow>
               new_rateconst_of [(''R1'', ''R1'')] ?rs (fst (ps ! k)) \<noteq> Some nm)
            \<longrightarrow> map_of (installed ?res) nm = Some (x * 3600)"
    by blast
  have last: "\<forall>k. 1 < k \<and> k < length ps \<longrightarrow>
               new_rateconst_of [(''R1'', ''R1'')] ?rs (fst (ps ! k)) \<noteq> Some nm"
    unfolding len by auto
  from a name have "nm = ''kr_R1''" unfolding at by simp
  moreover from b parsed have "x = 12 / 10000" unfolding at by simp
  ultimately have "map_of (installed ?res) ''kr_R1'' = Some (12 / 10000 * 3600)"
    using c last by blast
  with run none parsed show ?thesis by blast
qed

end
